theory Spec2Isabelle
  imports Main
begin

section \<open>Overview\<close>

text \<open>
  A model of the TIFF-to-JPEG converter: the locator classifier \<open>InputParser\<close>
  (url-parser.ts) and the class \<open>ImageConverter\<close> (converter.ts) with its local
  expander, remote fetcher, conversion engine and pipeline. Every source function is a
  function of the same name here; an \<open>async\<close> function that throws returns \<open>Inl\<close> of what
  it threw, and the state it works on is passed in and returned. Output to the console is
  left out. What the code gets from Node and from its libraries (the URL constructor, the
  \<open>path\<close> module, \<open>fs-extra\<close>, \<open>sharp\<close>, the Google Drive service, the clock) is a
  parameter, so that each theorem holds for every behaviour of them.
\<close>

section \<open>Strings\<close>

text \<open>
  JavaScript strings are modelled as \<open>string\<close>. Only ASCII letters change case; every
  other character is left alone by \<open>toLowerCase\<close>.
\<close>

definition lowerChar :: "char \<Rightarrow> char" where
  "lowerChar c =
     (let n = (of_char c :: nat)
      in if 65 \<le> n \<and> n \<le> 90 then char_of (n + 32) else c)"

definition toLowerCase :: "string \<Rightarrow> string" where
  "toLowerCase s = map lowerChar s"

text \<open>\<open>startsWith s t\<close>: the string \<open>s\<close> begins with \<open>t\<close>.\<close>

fun startsWith :: "string \<Rightarrow> string \<Rightarrow> bool" where
  "startsWith s [] = True"
| "startsWith [] (d # t) = False"
| "startsWith (c # s) (d # t) = (c = d \<and> startsWith s t)"

text \<open>\<open>String.prototype.includes\<close>: \<open>t\<close> occurs somewhere in \<open>s\<close>.\<close>

fun includesStr :: "string \<Rightarrow> string \<Rightarrow> bool" where
  "includesStr [] t = (t = [])"
| "includesStr (c # s) t = (startsWith (c # s) t \<or> includesStr s t)"

section \<open>The locator classifier (url-parser.ts)\<close>

datatype input_type = Local | GoogleDrive

record ParsedInput =
  type :: input_type
  path :: string
  folderId :: "string option"

text \<open>The character class \<open>[a-zA-Z0-9-_]\<close> of the three patterns.\<close>

definition idChar :: "char \<Rightarrow> bool" where
  "idChar c =
     (let n = (of_char c :: nat)
      in (97 \<le> n \<and> n \<le> 122) \<or> (65 \<le> n \<and> n \<le> 90) \<or> (48 \<le> n \<and> n \<le> 57)
         \<or> c = CHR ''-'' \<or> c = CHR ''_'')"

text \<open>
  Each pattern is a literal followed by the capture group \<open>([a-zA-Z0-9-_]+)\<close>, so a
  pattern is represented by its literal. \<open>matchHere lit s\<close> matches the pattern at the
  start of \<open>s\<close> and yields the (greedy, non-empty) capture; \<open>matchPattern lit s\<close> is
  \<open>s.match(pattern)\<close> for a pattern without the global flag: the leftmost match, or
  \<open>None\<close> for \<open>null\<close>.
\<close>

definition matchHere :: "string \<Rightarrow> string \<Rightarrow> string option" where
  "matchHere lit s =
     (if startsWith s lit
      then (let cap = takeWhile idChar (drop (length lit) s)
            in if cap = [] then None else Some cap)
      else None)"

fun matchPattern :: "string \<Rightarrow> string \<Rightarrow> string option" where
  "matchPattern lit [] = matchHere lit []"
| "matchPattern lit (c # s) =
     (case matchHere lit (c # s) of
        Some cap \<Rightarrow> Some cap
      | None \<Rightarrow> matchPattern lit s)"

definition patterns :: "string list" where
  "patterns = [''/folders/'', ''id='', ''/d/'']"

text \<open>The loop of \<open>extractFolderId\<close>: the first pattern that matches returns.\<close>

fun firstMatch :: "string list \<Rightarrow> string \<Rightarrow> string option" where
  "firstMatch [] url = None"
| "firstMatch (pattern # rest) url =
     (case matchPattern pattern url of
        Some cap \<Rightarrow> Some cap
      | None \<Rightarrow> firstMatch rest url)"

definition extractFolderId :: "string \<Rightarrow> string option" where
  "extractFolderId url = firstMatch patterns url"

text \<open>
  \<open>InputParser.parse\<close>. The WHATWG URL constructor is a parameter: \<open>hostnameOf input\<close>
  is \<open>Some\<close> of \<open>new URL(input).hostname\<close>, or \<open>None\<close> when the constructor throws.
  \<open>if (folderId)\<close> is JavaScript truthiness: neither \<open>null\<close> nor the empty string.
\<close>

definition parse :: "(string \<Rightarrow> string option) \<Rightarrow> string \<Rightarrow> ParsedInput" where
  "parse hostnameOf input =
     (case hostnameOf input of
        None \<Rightarrow> \<lparr>type = Local, path = input, folderId = None\<rparr>
      | Some hostname \<Rightarrow>
          if includesStr hostname ''drive.google.com''
          then (case extractFolderId input of
                  Some fid \<Rightarrow>
                    if fid \<noteq> []
                    then \<lparr>type = GoogleDrive, path = input, folderId = Some fid\<rparr>
                    else \<lparr>type = Local, path = input, folderId = None\<rparr>
                | None \<Rightarrow> \<lparr>type = Local, path = input, folderId = None\<rparr>)
          else \<lparr>type = Local, path = input, folderId = None\<rparr>)"

section \<open>The environment of the converter\<close>

text \<open>
  A thrown value is either an \<open>Error\<close> instance with its message, or something that is
  not an \<open>Error\<close> (the catch of \<open>convertFile\<close> tells them apart with \<open>instanceof\<close>).
\<close>

datatype js_exn = Error string | Thrown

text \<open>
  What \<open>fs.stat\<close> and \<open>fs.readdir\<close> (with \<open>withFileTypes\<close>) see at a path: a regular
  file; a directory with its entries in enumeration order, each entry carrying what is
  below it; a directory on which \<open>fs.readdir\<close> rejects with the given error (no
  permission to list it, for example); or something that is neither a file nor a
  directory (a socket, a device, a symbolic link among the entries of a directory).
\<close>

datatype node = File | Dir "(string \<times> node) list" | NoList js_exn | Other

fun isDirectory :: "node \<Rightarrow> bool" where
  "isDirectory (Dir items) = True"
| "isDirectory (NoList e) = True"
| "isDirectory File = False"
| "isDirectory Other = False"

text \<open>
  The file system as the process sees it: \<open>None\<close> where \<open>fs.pathExists\<close> is false,
  \<open>Some (Inl e)\<close> where something exists but \<open>fs.stat\<close> rejects with \<open>e\<close>, and
  \<open>Some (Inr n)\<close> where \<open>fs.stat\<close> resolves.
\<close>

type_synonym fsys = "string \<Rightarrow> (js_exn + node) option"

text \<open>Calls that reach the file system, the remote service or the image codec.\<close>

datatype event =
    EnsureDir string
  | PathExists string
  | Remove string
  | ListTiffFiles string
  | DownloadFile string string
  | Metadata string
  | ToFile string int string

text \<open>
  The state of a run: the file system, the calls made so far in order, and how many
  times \<open>Date.now()\<close> has been read.
\<close>

record world =
  fs :: fsys
  trace :: "event list"
  ticks :: nat

text \<open>The calls that go to the image codec.\<close>

fun codecCall :: "event \<Rightarrow> bool" where
  "codecCall (Metadata p) = True"
| "codecCall (ToFile src q dst) = True"
| "codecCall ev = False"

definition emit :: "event \<Rightarrow> world \<Rightarrow> world" where
  "emit ev w = w\<lparr>trace := trace w @ [ev]\<rparr>"

text \<open>
  The Node runtime and the libraries the converter calls (\<open>process\<close>, \<open>Date\<close>, \<open>URL\<close>,
  \<open>path\<close>, \<open>fs-extra\<close>, \<open>sharp\<close>) are parameters. Each effectful call sees the whole
  state, so its result may differ from one call to the next; it resolves or rejects, and
  returns the file system it leaves behind in both cases. \<open>clock n\<close> is the value of the
  \<open>n\<close>-th \<open>Date.now()\<close> of the process.
\<close>

record runtime =
  cwd :: string
  clock :: "nat \<Rightarrow> int"
  url_hostname :: "string \<Rightarrow> string option"
  path_join :: "string \<Rightarrow> string \<Rightarrow> string"
  path_resolve :: "string \<Rightarrow> string"
  path_dirname :: "string \<Rightarrow> string"
  path_basename :: "string \<Rightarrow> string \<Rightarrow> string"
  path_extname :: "string \<Rightarrow> string"
  fs_ensureDir :: "world \<Rightarrow> string \<Rightarrow> (js_exn + unit) \<times> fsys"
  fs_remove :: "world \<Rightarrow> string \<Rightarrow> (js_exn + unit) \<times> fsys"
  sharp_metadata :: "world \<Rightarrow> string \<Rightarrow> js_exn + string option"
  sharp_toFile :: "world \<Rightarrow> string \<Rightarrow> int \<Rightarrow> string \<Rightarrow> (js_exn + unit) \<times> fsys"

text \<open>\<open>GoogleDriveFile\<close> and the part of \<open>GoogleDriveService\<close> the converter uses.\<close>

record GoogleDriveFile =
  df_id :: string
  df_name :: string
  df_mimeType :: string
  df_size :: "string option"

record GoogleDriveService =
  isInitialized :: bool
  listTiffFiles :: "world \<Rightarrow> string \<Rightarrow> js_exn + GoogleDriveFile list"
  downloadFile :: "world \<Rightarrow> string \<Rightarrow> string \<Rightarrow> (js_exn + unit) \<times> fsys"

section \<open>types.ts\<close>

record ConversionOptions =
  quality :: int
  outputDir :: "string option"
  recursive :: bool
  overwrite :: bool

record ConversionResult =
  inputPath :: string
  outputPath :: string
  success :: bool
  error :: "string option"
  processingTime :: int

record ConversionStats =
  total :: int
  successful :: int
  failed :: int
  totalTime :: int

text \<open>The fields of the class \<open>ImageConverter\<close>.\<close>

record ImageConverter =
  options :: ConversionOptions
  googleDriveService :: "GoogleDriveService option"

section \<open>Calls into the environment\<close>

definition date_now :: "runtime \<Rightarrow> world \<Rightarrow> int \<times> world" where
  "date_now rt w = (clock rt (ticks w), w\<lparr>ticks := Suc (ticks w)\<rparr>)"

text \<open>
  \<open>fs.ensureDir\<close>: when the call resolves, a directory exists at the path, whatever else
  the call changed; when it rejects, the file system is as the call left it.
\<close>

definition withDir :: "fsys \<Rightarrow> string \<Rightarrow> fsys" where
  "withDir f p =
     (case f p of
        Some (Inr (Dir items)) \<Rightarrow> f
      | Some (Inr (NoList e)) \<Rightarrow> f
      | other \<Rightarrow> f(p \<mapsto> Inr (Dir [])))"

definition ensureDir :: "runtime \<Rightarrow> string \<Rightarrow> world \<Rightarrow> (js_exn + unit) \<times> world" where
  "ensureDir rt p w =
     (case fs_ensureDir rt w p of
        (Inl e, f) \<Rightarrow> (Inl e, (emit (EnsureDir p) w)\<lparr>fs := f\<rparr>)
      | (Inr u, f) \<Rightarrow> (Inr (), (emit (EnsureDir p) w)\<lparr>fs := withDir f p\<rparr>))"

text \<open>\<open>fs.pathExists\<close> never rejects.\<close>

definition pathExists :: "string \<Rightarrow> world \<Rightarrow> bool" where
  "pathExists p w = (fs w p \<noteq> None)"

text \<open>
  \<open>fs.remove\<close>: when the call resolves, nothing is left at the path; when it rejects,
  the file system is as the call left it.
\<close>

definition remove :: "runtime \<Rightarrow> string \<Rightarrow> world \<Rightarrow> (js_exn + unit) \<times> world" where
  "remove rt p w =
     (case fs_remove rt w p of
        (Inl e, f) \<Rightarrow> (Inl e, (emit (Remove p) w)\<lparr>fs := f\<rparr>)
      | (Inr u, f) \<Rightarrow> (Inr (), (emit (Remove p) w)\<lparr>fs := f(p := None)\<rparr>))"

definition metadata :: "runtime \<Rightarrow> string \<Rightarrow> world \<Rightarrow> (js_exn + string option) \<times> world" where
  "metadata rt p w = (sharp_metadata rt w p, emit (Metadata p) w)"

definition toFile :: "runtime \<Rightarrow> string \<Rightarrow> int \<Rightarrow> string \<Rightarrow> world \<Rightarrow> (js_exn + unit) \<times> world" where
  "toFile rt src q dst w =
     (let (r, f) = sharp_toFile rt w src q dst
      in (r, (emit (ToFile src q dst) w)\<lparr>fs := f\<rparr>))"

section \<open>The conversion engine (converter.ts)\<close>

text \<open>The test on the extension that \<open>isValidTiffFile\<close> and \<open>findTiffFiles\<close> share.\<close>

definition tiffExt :: "runtime \<Rightarrow> string \<Rightarrow> bool" where
  "tiffExt rt p =
     (let ext = toLowerCase (path_extname rt p)
      in ext = ''.tif'' \<or> ext = ''.tiff'')"

text \<open>
  \<open>isValidTiffFile\<close>: \<open>fs.stat\<close> rejects where nothing exists or where it cannot read,
  and \<open>metadata()\<close> may reject; the catch turns all of these into \<open>false\<close>.
\<close>

definition isValidTiffFile :: "runtime \<Rightarrow> string \<Rightarrow> world \<Rightarrow> bool \<times> world" where
  "isValidTiffFile rt filePath w =
     (case fs w filePath of
        None \<Rightarrow> (False, w)
      | Some (Inl e) \<Rightarrow> (False, w)
      | Some (Inr stats) \<Rightarrow>
          if stats \<noteq> File then (False, w)
          else if \<not> tiffExt rt filePath then (False, w)
          else (case metadata rt filePath w of
                  (Inl e, w') \<Rightarrow> (False, w')
                | (Inr fmt, w') \<Rightarrow> (fmt = Some ''tiff'', w')))"

text \<open>\<open>this.options.outputDir || path.dirname(inputPath)\<close>: an empty string is falsy.\<close>

definition generateOutputPath :: "runtime \<Rightarrow> ImageConverter \<Rightarrow> string \<Rightarrow> string" where
  "generateOutputPath rt this inp =
     (let dir = (case outputDir (options this) of
                   None \<Rightarrow> path_dirname rt inp
                 | Some d \<Rightarrow> if d = [] then path_dirname rt inp else d);
          basename = path_basename rt inp (path_extname rt inp)
      in path_join rt dir (basename @ ''.jpg''))"

text \<open>The \<open>try\<close> block of \<open>convertFile\<close>: the output path, or what was thrown.\<close>

definition convertFile_try :: "runtime \<Rightarrow> ImageConverter \<Rightarrow> string \<Rightarrow> world \<Rightarrow> (js_exn + string) \<times> world" where
  "convertFile_try rt this inp w =
     (case isValidTiffFile rt inp w of
        (False, w1) \<Rightarrow> (Inl (Error ''Input file is not a valid TIFF image''), w1)
      | (True, w1) \<Rightarrow>
          (let out = generateOutputPath rt this inp
           in case ensureDir rt (path_dirname rt out) w1 of
                (Inl e, w2) \<Rightarrow> (Inl e, w2)
              | (Inr u, w2) \<Rightarrow>
                  (case toFile rt inp (quality (options this)) out w2 of
                     (Inl e, w3) \<Rightarrow> (Inl e, w3)
                   | (Inr u', w3) \<Rightarrow> (Inr out, w3))))"

text \<open>\<open>error instanceof Error ? error.message : 'Unknown error'\<close>\<close>

definition messageOf :: "js_exn \<Rightarrow> string" where
  "messageOf e = (case e of Error message \<Rightarrow> message | Thrown \<Rightarrow> ''Unknown error'')"

definition convertFile :: "runtime \<Rightarrow> ImageConverter \<Rightarrow> string \<Rightarrow> world \<Rightarrow> ConversionResult \<times> world" where
  "convertFile rt this inp w =
     (let (startTime, w0) = date_now rt w;
          (r, w1) = convertFile_try rt this inp w0;
          (endTime, w2) = date_now rt w1
      in case r of
           Inr out \<Rightarrow>
             (\<lparr>inputPath = inp, outputPath = out, success = True, error = None,
               processingTime = endTime - startTime\<rparr>, w2)
         | Inl e \<Rightarrow>
             (\<lparr>inputPath = inp, outputPath = [], success = False,
               error = Some (messageOf e),
               processingTime = endTime - startTime\<rparr>, w2))"

text \<open>The \<open>for\<close> loop of \<open>convertFiles\<close>, counting into \<open>stats\<close>.\<close>

fun convertEach :: "runtime \<Rightarrow> ImageConverter \<Rightarrow> string list \<Rightarrow> ConversionStats \<Rightarrow> world \<Rightarrow> ConversionStats \<times> world" where
  "convertEach rt this [] stats w = (stats, w)"
| "convertEach rt this (inp # rest) stats w =
     (let (result, w') = convertFile rt this inp w
      in if success result
         then convertEach rt this rest (stats\<lparr>successful := successful stats + 1\<rparr>) w'
         else convertEach rt this rest (stats\<lparr>failed := failed stats + 1\<rparr>) w')"

definition convertFiles :: "runtime \<Rightarrow> ImageConverter \<Rightarrow> string list \<Rightarrow> world \<Rightarrow> ConversionStats \<times> world" where
  "convertFiles rt this inputPaths w =
     (let stats = \<lparr>total = int (length inputPaths), successful = 0, failed = 0, totalTime = 0\<rparr>;
          (startTime, w0) = date_now rt w;
          (stats', w1) = convertEach rt this inputPaths stats w0;
          (endTime, w2) = date_now rt w1
      in (stats'\<lparr>totalTime := endTime - startTime\<rparr>, w2))"

text \<open>
  The \<open>ConversionResult\<close>s that the loop of \<open>convertFiles\<close> receives from \<open>convertFile\<close>,
  in order, when the loop starts in state \<open>w\<close>.
\<close>

fun outcomes :: "runtime \<Rightarrow> ImageConverter \<Rightarrow> string list \<Rightarrow> world \<Rightarrow> ConversionResult list" where
  "outcomes rt this [] w = []"
| "outcomes rt this (inp # rest) w =
     (let (result, w') = convertFile rt this inp w
      in result # outcomes rt this rest w')"

section \<open>The local expander\<close>

text \<open>
  \<open>findTiffFiles directory\<close>, given what is at \<open>directory\<close>: \<open>fs.readdir\<close> resolves with
  the entries of a directory that can be listed, rejects with its error on one that
  cannot, and rejects with \<open>ENOTDIR\<close> on anything else. \<open>searchRecursive\<close> and
  \<open>searchFlat\<close> are its two \<open>for\<close> statements; the recursive one calls \<open>findTiffFiles\<close>
  on each entry that is a directory, and a rejection there ends the whole search.
\<close>

fun searchFlat :: "runtime \<Rightarrow> string \<Rightarrow> (string \<times> node) list \<Rightarrow> string list" where
  "searchFlat rt directory [] = []"
| "searchFlat rt directory ((name, item) # items) =
     (if item = File
      then (if tiffExt rt name then [path_join rt directory name] else [])
      else [])
     @ searchFlat rt directory items"

fun findTiffFiles :: "runtime \<Rightarrow> ImageConverter \<Rightarrow> string \<Rightarrow> node \<Rightarrow> js_exn + string list"
  and searchRecursive :: "runtime \<Rightarrow> ImageConverter \<Rightarrow> string \<Rightarrow> (string \<times> node) list \<Rightarrow> js_exn + string list"
where
  "findTiffFiles rt this directory (Dir items) =
     (if recursive (options this)
      then searchRecursive rt this directory items
      else Inr (searchFlat rt directory items))"
| "findTiffFiles rt this directory (NoList e) = Inl e"
| "findTiffFiles rt this directory File = Inl (Error (''ENOTDIR: not a directory, scandir '' @ directory))"
| "findTiffFiles rt this directory Other = Inl (Error (''ENOTDIR: not a directory, scandir '' @ directory))"
| "searchRecursive rt this directory [] = Inr []"
| "searchRecursive rt this directory ((name, item) # items) =
     (let fullPath = path_join rt directory name
      in if isDirectory item
         then (case findTiffFiles rt this fullPath item of
                 Inl e \<Rightarrow> Inl e
               | Inr subFiles \<Rightarrow>
                   (case searchRecursive rt this directory items of
                      Inl e \<Rightarrow> Inl e
                    | Inr files \<Rightarrow> Inr (subFiles @ files)))
         else (case searchRecursive rt this directory items of
                 Inl e \<Rightarrow> Inl e
               | Inr files \<Rightarrow>
                   Inr ((if item = File \<and> tiffExt rt name then [fullPath] else []) @ files)))"

text \<open>
  \<open>processLocalPath\<close>: \<open>fs.pathExists\<close>, then \<open>fs.stat\<close>, which may reject, then the
  file itself or the search of the directory.
\<close>

definition processLocalPath :: "runtime \<Rightarrow> ImageConverter \<Rightarrow> string \<Rightarrow> world \<Rightarrow> (js_exn + string list) \<times> world" where
  "processLocalPath rt this inp w =
     (let resolvedPath = path_resolve rt inp;
          w' = emit (PathExists resolvedPath) w
      in case fs w resolvedPath of
           None \<Rightarrow> (Inl (Error (''Path does not exist: '' @ inp)), w')
         | Some (Inl e) \<Rightarrow> (Inl e, w')
         | Some (Inr stats) \<Rightarrow>
             if stats = File then (Inr [resolvedPath], w')
             else if isDirectory stats then (findTiffFiles rt this resolvedPath stats, w')
             else (Inr [], w'))"

section \<open>The remote fetcher\<close>

text \<open>The download loop of \<open>processGoogleDriveFolder\<close>; a failed download throws.\<close>

fun downloadEach :: "runtime \<Rightarrow> GoogleDriveService \<Rightarrow> string \<Rightarrow> GoogleDriveFile list \<Rightarrow> string list \<Rightarrow> world \<Rightarrow> (js_exn + string list) \<times> world" where
  "downloadEach rt svc tempDir [] downloadedFiles w = (Inr downloadedFiles, w)"
| "downloadEach rt svc tempDir (file # files) downloadedFiles w =
     (let tempPath = path_join rt tempDir (df_name file);
          (r, f) = downloadFile svc w (df_id file) tempPath;
          w' = (emit (DownloadFile (df_id file) tempPath) w)\<lparr>fs := f\<rparr>
      in case r of
           Inl e \<Rightarrow> (Inl e, w')
         | Inr u \<Rightarrow> downloadEach rt svc tempDir files (downloadedFiles @ [tempPath]) w')"

definition processGoogleDriveFolder :: "runtime \<Rightarrow> ImageConverter \<Rightarrow> string \<Rightarrow> string \<Rightarrow> world \<Rightarrow> (js_exn + string list) \<times> world" where
  "processGoogleDriveFolder rt this fid tempDir w =
     (case googleDriveService this of
        None \<Rightarrow>
          (Inl (Error ''Google Drive service not properly initialized. Please provide valid credentials.''), w)
      | Some svc \<Rightarrow>
          if \<not> isInitialized svc
          then (Inl (Error ''Google Drive service not properly initialized. Please provide valid credentials.''), w)
          else (case listTiffFiles svc w fid of
                  Inl e \<Rightarrow> (Inl e, emit (ListTiffFiles fid) w)
                | Inr files \<Rightarrow> downloadEach rt svc tempDir files [] (emit (ListTiffFiles fid) w)))"

section \<open>The pipeline orchestrator\<close>

definition tempDirOf :: "runtime \<Rightarrow> string" where
  "tempDirOf rt = path_join rt (cwd rt) ''.temp-downloads''"

text \<open>
  The loop over the inputs. \<open>parsed.folderId!\<close> only asserts to the type checker; a
  missing identifier would reach the service as \<open>undefined\<close>.
\<close>

fun expandInputs :: "runtime \<Rightarrow> ImageConverter \<Rightarrow> string \<Rightarrow> string list \<Rightarrow> string list \<Rightarrow> world \<Rightarrow> (js_exn + string list) \<times> world" where
  "expandInputs rt this tempDir [] allFiles w = (Inr allFiles, w)"
| "expandInputs rt this tempDir (input # rest) allFiles w =
     (let parsed = parse (url_hostname rt) input
      in if type parsed = GoogleDrive
         then (if googleDriveService this = None
               then (Inl (Error ''Google Drive service not initialized. Please provide credentials.''), w)
               else (case processGoogleDriveFolder rt this
                            (case folderId parsed of Some fid \<Rightarrow> fid | None \<Rightarrow> ''undefined'')
                            tempDir w of
                       (Inl e, w') \<Rightarrow> (Inl e, w')
                     | (Inr files, w') \<Rightarrow> expandInputs rt this tempDir rest (allFiles @ files) w'))
         else (case processLocalPath rt this (path parsed) w of
                 (Inl e, w') \<Rightarrow> (Inl e, w')
               | (Inr files, w') \<Rightarrow> expandInputs rt this tempDir rest (allFiles @ files) w'))"

text \<open>The \<open>try\<close> block of \<open>processInput\<close>.\<close>

definition processInput_try :: "runtime \<Rightarrow> ImageConverter \<Rightarrow> string list \<Rightarrow> world \<Rightarrow> (js_exn + ConversionStats) \<times> world" where
  "processInput_try rt this inputs w =
     (case ensureDir rt (tempDirOf rt) w of
        (Inl e, w1) \<Rightarrow> (Inl e, w1)
      | (Inr u, w1) \<Rightarrow>
          (case expandInputs rt this (tempDirOf rt) inputs [] w1 of
             (Inl e, w2) \<Rightarrow> (Inl e, w2)
           | (Inr allFiles, w2) \<Rightarrow>
               if length allFiles = 0
               then (Inr \<lparr>total = 0, successful = 0, failed = 0, totalTime = 0\<rparr>, w2)
               else (let (stats, w3) = convertFiles rt this allFiles w2
                     in (Inr stats, w3))))"

text \<open>
  The \<open>finally\<close> block of \<open>processInput\<close>, entered with the outcome \<open>r\<close> of the \<open>try\<close>
  block: when \<open>fs.remove\<close> rejects, its error replaces \<open>r\<close>, whether \<open>r\<close> was the
  statistics or an error; otherwise \<open>r\<close> stands.
\<close>

definition processInput_finally :: "runtime \<Rightarrow> (js_exn + ConversionStats) \<Rightarrow> world \<Rightarrow> (js_exn + ConversionStats) \<times> world" where
  "processInput_finally rt r w =
     (if pathExists (tempDirOf rt) w
      then (case remove rt (tempDirOf rt) (emit (PathExists (tempDirOf rt)) w) of
              (Inl e, w') \<Rightarrow> (Inl e, w')
            | (Inr u, w') \<Rightarrow> (r, w'))
      else (r, emit (PathExists (tempDirOf rt)) w))"

definition processInput :: "runtime \<Rightarrow> ImageConverter \<Rightarrow> string list \<Rightarrow> world \<Rightarrow> (js_exn + ConversionStats) \<times> world" where
  "processInput rt this inputs w =
     (let (r, w') = processInput_try rt this inputs w
      in processInput_finally rt r w')"

section \<open>The expansion of a directory, as the specification words it\<close>

text \<open>
  The qualifying files below one directory entry: a file whose lower-cased extension is
  \<open>.tif\<close> or \<open>.tiff\<close> is included; a subdirectory contributes the qualifying files of
  its own entries, depth first, when \<open>rec\<close> is true and nothing otherwise; anything else
  is skipped.
\<close>

fun tiffsUnder :: "runtime \<Rightarrow> bool \<Rightarrow> string \<Rightarrow> string \<Rightarrow> node \<Rightarrow> string list"
  and tiffsIn :: "runtime \<Rightarrow> bool \<Rightarrow> string \<Rightarrow> (string \<times> node) list \<Rightarrow> string list"
where
  "tiffsUnder rt rec directory name File =
     (if tiffExt rt name then [path_join rt directory name] else [])"
| "tiffsUnder rt rec directory name (Dir entries) =
     (if rec then tiffsIn rt rec (path_join rt directory name) entries else [])"
| "tiffsUnder rt rec directory name (NoList e) = []"
| "tiffsUnder rt rec directory name Other = []"
| "tiffsIn rt rec directory [] = []"
| "tiffsIn rt rec directory ((name, item) # entries) =
     tiffsUnder rt rec directory name item @ tiffsIn rt rec directory entries"


section \<open>A concrete environment\<close>

text \<open>
  A small file system, runtime and remote service on which the model can be run. The
  path functions are stand-ins that agree with Node's on the plain POSIX paths used here;
  the codec rejects two of the files at the metadata probe and one at encoding; the
  second download of the remote folder fails; \<open>/work/locked\<close> and \<open>/work/mixed/private\<close>
  are directories that cannot be listed.
\<close>

definition sampleFs :: fsys where
  "sampleFs =
     [''/work/photos'' \<mapsto>
        Inr (Dir [(''a.tif'', File), (''b.TIFF'', File), (''notes.txt'', File),
                  (''raw'', Dir [(''c.tiff'', File), (''d.png'', File)]), (''link'', Other)]),
      ''/work/photos/a.tif'' \<mapsto> Inr File,
      ''/work/photos/b.TIFF'' \<mapsto> Inr File,
      ''/work/photos/notes.txt'' \<mapsto> Inr File,
      ''/work/scan.tif'' \<mapsto> Inr File,
      ''/work/empty'' \<mapsto> Inr (Dir [(''readme.md'', File)]),
      ''/work/locked'' \<mapsto> Inr (NoList (Error ''EACCES: permission denied, scandir /work/locked'')),
      ''/work/mixed'' \<mapsto>
        Inr (Dir [(''x.tif'', File),
                  (''private'', NoList (Error ''EACCES: permission denied, scandir /work/mixed/private'')),
                  (''y.tif'', File)])]"

definition sampleRuntime :: runtime where
  "sampleRuntime =
     \<lparr>cwd = ''/work'',
      clock = (\<lambda>n. 1000 + 3 * int n),
      url_hostname = (\<lambda>s. if startsWith s ''https://drive.google.com/'' then Some ''drive.google.com''
                           else if startsWith s ''https://example.org/'' then Some ''example.org''
                           else None),
      path_join = (\<lambda>a b. a @ ''/'' @ b),
      path_resolve = (\<lambda>p. if startsWith p ''/'' then p else ''/work/'' @ p),
      path_dirname = (\<lambda>p. rev (tl (dropWhile (\<lambda>c. c \<noteq> CHR ''/'') (rev p)))),
      path_basename = (\<lambda>p ext. let b = rev (takeWhile (\<lambda>c. c \<noteq> CHR ''/'') (rev p))
                               in take (length b - length ext) b),
      path_extname = (\<lambda>p. if CHR ''.'' \<in> set p
                           then CHR ''.'' # rev (takeWhile (\<lambda>c. c \<noteq> CHR ''.'') (rev p))
                           else []),
      fs_ensureDir = (\<lambda>w p. case fs w p of
                                None \<Rightarrow> (Inr (), (fs w)(p \<mapsto> Inr (Dir [])))
                              | Some (Inr (Dir items)) \<Rightarrow> (Inr (), fs w)
                              | Some (Inr (NoList e)) \<Rightarrow> (Inr (), fs w)
                              | Some other \<Rightarrow> (Inl (Error ''EEXIST: file already exists, mkdir''), fs w)),
      fs_remove = (\<lambda>w p. (Inr (), (fs w)(p := None))),
      sharp_metadata = (\<lambda>w p. if p = ''/work/photos/notes.txt'' \<or> p = ''/work/scan.tif''
                               then Inl (Error ''Input file contains unsupported image format'')
                               else Inr (Some ''tiff'')),
      sharp_toFile = (\<lambda>w src q dst. if src = ''/work/photos/b.TIFF''
                                     then (Inl (Error ''tiff: read error''), fs w)
                                     else (Inr (), (fs w)(dst \<mapsto> Inr File)))\<rparr>"

definition sampleService :: GoogleDriveService where
  "sampleService =
     \<lparr>isInitialized = True,
      listTiffFiles = (\<lambda>w fid. if fid = ''ABC123''
                               then Inr [\<lparr>df_id = ''f1'', df_name = ''r1.tif'', df_mimeType = ''image/tiff'', df_size = None\<rparr>,
                                         \<lparr>df_id = ''f2'', df_name = ''r2.tif'', df_mimeType = ''image/tiff'', df_size = None\<rparr>]
                               else Inl (Error ''Failed to list files: not found'')),
      downloadFile = (\<lambda>w fileId dst. if fileId = ''f2''
                                      then (Inl (Error ''Failed to download file: timeout''), fs w)
                                      else (Inr (), (fs w)(dst \<mapsto> Inr File)))\<rparr>"

definition sampleConverter :: ImageConverter where
  "sampleConverter =
     \<lparr>options = \<lparr>quality = 80, outputDir = None, recursive = False, overwrite = False\<rparr>,
      googleDriveService = Some sampleService\<rparr>"


definition sampleWorld :: world where
  "sampleWorld = \<lparr>fs = sampleFs, trace = [], ticks = 0\<rparr>"

text \<open>
  Three variations: a runtime on which \<open>fs.remove\<close> rejects, one on which \<open>fs.ensureDir\<close>
  rejects (a working directory that cannot be written), and a state in which a regular
  file sits at the path of the staging directory.
\<close>

definition stuckRuntime :: runtime where
  "stuckRuntime =
     sampleRuntime\<lparr>fs_remove := (\<lambda>w p. (Inl (Error ''EBUSY: resource busy or locked, rmdir''), fs w))\<rparr>"


definition blockedWorld :: world where
  "blockedWorld = \<lparr>fs = sampleFs(''/work/.temp-downloads'' \<mapsto> Inr File), trace = [], ticks = 0\<rparr>"

lemmas sample_defs =
  sampleFs_def sampleRuntime_def sampleService_def sampleConverter_def sampleWorld_def

lemmas model_defs =
  convertFile_def convertFile_try_def isValidTiffFile_def generateOutputPath_def
  ensureDir_def toFile_def metadata_def emit_def date_now_def tiffExt_def toLowerCase_def
  lowerChar_def convertFiles_def messageOf_def withDir_def Let_def

section \<open>Properties of the classifier\<close>

lemma matchHere_nonempty: "matchHere lit s = Some cap \<Longrightarrow> cap \<noteq> []"
  by (auto simp: matchHere_def Let_def split: if_splits)

lemma startsWith_append: "startsWith s t \<Longrightarrow> s = t @ drop (length t) s"
  by (induction s t rule: startsWith.induct) auto

text \<open>
  A match of \<open>matchPattern\<close> is an occurrence of the literal followed by a maximal,
  non-empty run of identifier characters.
\<close>

lemma matchHere_sound:
  assumes "matchHere lit s = Some cap"
  shows "\<exists>rest. s = lit @ cap @ rest \<and> cap \<noteq> [] \<and> (\<forall>c \<in> set cap. idChar c)
           \<and> (rest = [] \<or> \<not> idChar (hd rest))"
proof -
  from assms have sw: "startsWith s lit" and cap: "cap = takeWhile idChar (drop (length lit) s)"
    and ne: "cap \<noteq> []"
    by (auto simp: matchHere_def Let_def split: if_splits)
  define rest where "rest = dropWhile idChar (drop (length lit) s)"
  have "s = lit @ drop (length lit) s"
    using sw by (rule startsWith_append)
  then have "s = lit @ cap @ rest"
    by (simp add: cap rest_def)
  moreover have "\<forall>c \<in> set cap. idChar c"
    unfolding cap by (auto dest: set_takeWhileD)
  moreover have "rest = [] \<or> \<not> idChar (hd rest)"
    unfolding rest_def using hd_dropWhile [of idChar "drop (length lit) s"] by blast
  ultimately show ?thesis using ne by blast
qed

lemma matchPattern_sound:
  "matchPattern lit s = Some cap \<Longrightarrow>
   \<exists>before rest. s = before @ lit @ cap @ rest \<and> cap \<noteq> [] \<and> (\<forall>c \<in> set cap. idChar c)
      \<and> (rest = [] \<or> \<not> idChar (hd rest))"
proof (induction s)
  case Nil
  then show ?case by (simp add: matchHere_def split: if_splits)
next
  case (Cons c s)
  show ?case
  proof (cases "matchHere lit (c # s)")
    case (Some cap')
    then have "cap' = cap" using Cons.prems by simp
    then obtain rest where "c # s = [] @ lit @ cap @ rest" "cap \<noteq> []" "\<forall>c \<in> set cap. idChar c"
        "rest = [] \<or> \<not> idChar (hd rest)"
      using matchHere_sound [OF Some] by auto
    then show ?thesis by blast
  next
    case None
    then have "matchPattern lit s = Some cap" using Cons.prems by simp
    then obtain before rest where "s = before @ lit @ cap @ rest" "cap \<noteq> []" "\<forall>c \<in> set cap. idChar c"
        "rest = [] \<or> \<not> idChar (hd rest)"
      using Cons.IH by blast
    then have "c # s = (c # before) @ lit @ cap @ rest \<and> cap \<noteq> [] \<and> (\<forall>c \<in> set cap. idChar c)
        \<and> (rest = [] \<or> \<not> idChar (hd rest))"
      by simp
    then show ?thesis by blast
  qed
qed

lemma matchPattern_nonempty: "matchPattern lit s = Some cap \<Longrightarrow> cap \<noteq> []"
  by (induction s) (auto dest: matchHere_nonempty split: option.splits)

lemma extractFolderId_order:
  "extractFolderId url =
     (case matchPattern ''/folders/'' url of
        Some cap \<Rightarrow> Some cap
      | None \<Rightarrow>
          (case matchPattern ''id='' url of
             Some cap \<Rightarrow> Some cap
           | None \<Rightarrow> matchPattern ''/d/'' url))"
  by (simp add: extractFolderId_def patterns_def split: option.splits)

lemma folders_example: "extractFolderId ''https://drive.google.com/drive/folders/ABC123'' = Some ''ABC123''"
  by (simp add: extractFolderId_def patterns_def matchHere_def idChar_def)

lemma open_id_example: "extractFolderId ''https://drive.google.com/open?id=XYZ'' = Some ''XYZ''"
  by (simp add: extractFolderId_def patterns_def matchHere_def idChar_def)

lemma d_example: "extractFolderId ''https://drive.google.com/d/QRS'' = Some ''QRS''"
  by (simp add: extractFolderId_def patterns_def matchHere_def idChar_def)

text \<open>
  A host name without \<open>/\<close> cannot start a match of a pattern that begins with \<open>/\<close>,
  and one without \<open>=\<close> cannot contain a match of \<open>id=\<close>; so in \<open>https://<host>/...\<close>
  the patterns are decided by what follows the host.
\<close>

lemma matchHere_no_start: "\<not> startsWith s lit \<Longrightarrow> matchHere lit s = None"
  by (simp add: matchHere_def)

lemma matchPattern_skip_slash_free:
  "\<forall>x \<in> set h. x \<noteq> CHR ''/'' \<Longrightarrow> rest \<noteq> [] \<Longrightarrow>
   matchPattern (CHR ''/'' # lit) (h @ rest) = matchPattern (CHR ''/'' # lit) rest"
proof (induction h)
  case Nil
  show ?case by simp
next
  case (Cons c h)
  then have "matchHere (CHR ''/'' # lit) (c # h @ rest) = None"
    by (simp add: matchHere_def)
  then show ?case using Cons by simp
qed

lemma startsWith_host_slash:
  "\<forall>x \<in> set h. x \<noteq> CHR ''/'' \<Longrightarrow> \<forall>x \<in> set t. x \<noteq> CHR ''/'' \<Longrightarrow>
   startsWith (h @ CHR ''/'' # rest) (t @ ''/'') \<longleftrightarrow> h = t"
proof (induction h arbitrary: t)
  case Nil
  then show ?case by (cases t) auto
next
  case (Cons c h)
  then show ?case by (cases t) auto
qed

lemma matchPattern_id_skip:
  "\<forall>x \<in> set h. x \<noteq> CHR ''='' \<Longrightarrow>
   matchPattern ''id='' (h @ CHR ''/'' # rest) = matchPattern ''id='' (CHR ''/'' # rest)"
proof (induction h)
  case Nil
  show ?case by simp
next
  case (Cons c h)
  have "\<not> startsWith (c # h @ CHR ''/'' # rest) ''id=''"
  proof (cases h)
    case Nil
    then show ?thesis by simp
  next
    case (Cons c1 h1)
    note h = this
    show ?thesis
    proof (cases h1)
      case Nil
      then show ?thesis using h by simp
    next
      case (Cons c2 h2)
      then show ?thesis using h Cons.prems \<open>\<forall>x\<in>set (c # h). x \<noteq> CHR ''=''\<close> by simp
    qed
  qed
  then have "matchHere ''id='' (c # h @ CHR ''/'' # rest) = None"
    by (rule matchHere_no_start)
  then show ?case using Cons by simp
qed

lemma slash_patterns_any_host:
  assumes s: "\<forall>x \<in> set h. x \<noteq> CHR ''/''"
    and i: "includesStr h ''drive.google.com''"
  shows "matchPattern ''/folders/'' (''https://'' @ h @ ''/drive/folders/ABC123'') = Some ''ABC123''"
    and "matchPattern ''/folders/'' (''https://'' @ h @ ''/open?id=XYZ'') = None"
    and "matchPattern ''/folders/'' (''https://'' @ h @ ''/d/QRS'') = None"
    and "matchPattern ''/d/'' (''https://'' @ h @ ''/d/QRS'') = Some ''QRS''"
proof -
  have nf: "h \<noteq> ''folders''" "h \<noteq> ''d''"
    using i by auto
  have f: "\<And>rest. \<not> startsWith (h @ CHR ''/'' # rest) ''folders/''"
    using startsWith_host_slash [OF s, of "''folders''"] nf by simp
  have d: "\<And>rest. \<not> startsWith (h @ CHR ''/'' # rest) ''d/''"
    using startsWith_host_slash [OF s, of "''d''"] nf by simp
  have a: "\<And>lit rest. rest \<noteq> [] \<Longrightarrow>
            matchPattern (CHR ''/'' # lit) (h @ rest) = matchPattern (CHR ''/'' # lit) rest"
    using s by (rule matchPattern_skip_slash_free)
  show "matchPattern ''/folders/'' (''https://'' @ h @ ''/drive/folders/ABC123'') = Some ''ABC123''"
    using f [of "''drive/folders/ABC123''"] a [of "''/drive/folders/ABC123''" "''folders/''"]
    by (simp add: matchHere_def idChar_def)
  show "matchPattern ''/folders/'' (''https://'' @ h @ ''/open?id=XYZ'') = None"
    using f [of "''open?id=XYZ''"] a [of "''/open?id=XYZ''" "''folders/''"]
    by (simp add: matchHere_def idChar_def)
  show "matchPattern ''/folders/'' (''https://'' @ h @ ''/d/QRS'') = None"
    using f [of "''d/QRS''"] a [of "''/d/QRS''" "''folders/''"]
    by (simp add: matchHere_def idChar_def)
  show "matchPattern ''/d/'' (''https://'' @ h @ ''/d/QRS'') = Some ''QRS''"
    using d [of "''d/QRS''"] a [of "''/d/QRS''" "''d/''"]
    by (simp add: matchHere_def idChar_def)
qed

lemma id_pattern_any_host:
  assumes e: "\<forall>x \<in> set h. x \<noteq> CHR ''=''"
  shows "matchPattern ''id='' (''https://'' @ h @ ''/open?id=XYZ'') = Some ''XYZ''"
    and "matchPattern ''id='' (''https://'' @ h @ ''/d/QRS'') = None"
proof -
  show "matchPattern ''id='' (''https://'' @ h @ ''/open?id=XYZ'') = Some ''XYZ''"
    using matchPattern_id_skip [OF e, of "''open?id=XYZ''"]
    by (simp add: matchHere_def idChar_def)
  show "matchPattern ''id='' (''https://'' @ h @ ''/d/QRS'') = None"
    using matchPattern_id_skip [OF e, of "''d/QRS''"]
    by (simp add: matchHere_def idChar_def)
qed

lemma extractFolderId_any_host:
  assumes "\<forall>x \<in> set h. x \<noteq> CHR ''/'' \<and> x \<noteq> CHR ''=''"
    and "includesStr h ''drive.google.com''"
  shows "extractFolderId (''https://'' @ h @ ''/drive/folders/ABC123'') = Some ''ABC123''"
    and "extractFolderId (''https://'' @ h @ ''/open?id=XYZ'') = Some ''XYZ''"
    and "extractFolderId (''https://'' @ h @ ''/d/QRS'') = Some ''QRS''"
proof -
  have s: "\<forall>x \<in> set h. x \<noteq> CHR ''/''" and e: "\<forall>x \<in> set h. x \<noteq> CHR ''=''"
    using assms(1) by auto
  show "extractFolderId (''https://'' @ h @ ''/drive/folders/ABC123'') = Some ''ABC123''"
    by (simp only: extractFolderId_order slash_patterns_any_host(1) [OF s assms(2)] option.case)
  show "extractFolderId (''https://'' @ h @ ''/open?id=XYZ'') = Some ''XYZ''"
    by (simp only: extractFolderId_order slash_patterns_any_host(2) [OF s assms(2)] id_pattern_any_host(1) [OF e] option.case)
  show "extractFolderId (''https://'' @ h @ ''/d/QRS'') = Some ''QRS''"
    by (simp only: extractFolderId_order slash_patterns_any_host(3,4) [OF s assms(2)] id_pattern_any_host(2) [OF e] option.case)
qed

lemma parse_found:
  "hostnameOf input = Some hostname \<Longrightarrow> includesStr hostname ''drive.google.com'' \<Longrightarrow>
   extractFolderId input = Some fid \<Longrightarrow> fid \<noteq> [] \<Longrightarrow>
   parse hostnameOf input = \<lparr>type = GoogleDrive, path = input, folderId = Some fid\<rparr>"
  by (simp add: parse_def)

text \<open>
  Claim C3. When the URL host of the input contains \<open>drive.google.com\<close>, the folder
  identifier is found by trying \<open>/folders/<id>\<close>, then \<open>id=<id>\<close>, then \<open>/d/<id>\<close>, and
  the first pattern that matches decides; the input is a \<open>GoogleDrive\<close> folder exactly when
  one of them matches. In particular \<open>https://drive.google.com/drive/folders/ABC123\<close>
  yields \<open>ABC123\<close>, \<open>https://drive.google.com/open?id=XYZ\<close> yields \<open>XYZ\<close> and
  \<open>https://drive.google.com/d/QRS\<close> yields \<open>QRS\<close>, whatever host name containing the
  token the URL constructor reports for them; and the same three results hold with any
  host name in place of \<open>drive.google.com\<close> that contains the token and has no \<open>/\<close> and
  no \<open>=\<close> in it.
\<close>

theorem classify_remote_folder:
  "(\<forall>input hostname.
      hostnameOf input = Some hostname \<and> includesStr hostname ''drive.google.com'' \<longrightarrow>
      parse hostnameOf input =
        (case matchPattern ''/folders/'' input of
           Some fid \<Rightarrow> \<lparr>type = GoogleDrive, path = input, folderId = Some fid\<rparr>
         | None \<Rightarrow>
             (case matchPattern ''id='' input of
                Some fid \<Rightarrow> \<lparr>type = GoogleDrive, path = input, folderId = Some fid\<rparr>
              | None \<Rightarrow>
                  (case matchPattern ''/d/'' input of
                     Some fid \<Rightarrow> \<lparr>type = GoogleDrive, path = input, folderId = Some fid\<rparr>
                   | None \<Rightarrow> \<lparr>type = Local, path = input, folderId = None\<rparr>))))
   \<and> (\<forall>hostname. hostnameOf ''https://drive.google.com/drive/folders/ABC123'' = Some hostname
          \<and> includesStr hostname ''drive.google.com'' \<longrightarrow>
        parse hostnameOf ''https://drive.google.com/drive/folders/ABC123'' =
          \<lparr>type = GoogleDrive, path = ''https://drive.google.com/drive/folders/ABC123'',
           folderId = Some ''ABC123''\<rparr>)
   \<and> (\<forall>hostname. hostnameOf ''https://drive.google.com/open?id=XYZ'' = Some hostname
          \<and> includesStr hostname ''drive.google.com'' \<longrightarrow>
        parse hostnameOf ''https://drive.google.com/open?id=XYZ'' =
          \<lparr>type = GoogleDrive, path = ''https://drive.google.com/open?id=XYZ'',
           folderId = Some ''XYZ''\<rparr>)
   \<and> (\<forall>hostname. hostnameOf ''https://drive.google.com/d/QRS'' = Some hostname
          \<and> includesStr hostname ''drive.google.com'' \<longrightarrow>
        parse hostnameOf ''https://drive.google.com/d/QRS'' =
          \<lparr>type = GoogleDrive, path = ''https://drive.google.com/d/QRS'',
           folderId = Some ''QRS''\<rparr>)
   \<and> (\<forall>h. (\<forall>x \<in> set h. x \<noteq> CHR ''/'' \<and> x \<noteq> CHR ''='') \<and> includesStr h ''drive.google.com''
          \<and> hostnameOf (''https://'' @ h @ ''/drive/folders/ABC123'') = Some h \<longrightarrow>
        parse hostnameOf (''https://'' @ h @ ''/drive/folders/ABC123'') =
          \<lparr>type = GoogleDrive, path = ''https://'' @ h @ ''/drive/folders/ABC123'',
           folderId = Some ''ABC123''\<rparr>)
   \<and> (\<forall>h. (\<forall>x \<in> set h. x \<noteq> CHR ''/'' \<and> x \<noteq> CHR ''='') \<and> includesStr h ''drive.google.com''
          \<and> hostnameOf (''https://'' @ h @ ''/open?id=XYZ'') = Some h \<longrightarrow>
        parse hostnameOf (''https://'' @ h @ ''/open?id=XYZ'') =
          \<lparr>type = GoogleDrive, path = ''https://'' @ h @ ''/open?id=XYZ'',
           folderId = Some ''XYZ''\<rparr>)
   \<and> (\<forall>h. (\<forall>x \<in> set h. x \<noteq> CHR ''/'' \<and> x \<noteq> CHR ''='') \<and> includesStr h ''drive.google.com''
          \<and> hostnameOf (''https://'' @ h @ ''/d/QRS'') = Some h \<longrightarrow>
        parse hostnameOf (''https://'' @ h @ ''/d/QRS'') =
          \<lparr>type = GoogleDrive, path = ''https://'' @ h @ ''/d/QRS'',
           folderId = Some ''QRS''\<rparr>)"
proof (intro conjI allI impI)
  fix input hostname
  assume h: "hostnameOf input = Some hostname \<and> includesStr hostname ''drive.google.com''"
  show "parse hostnameOf input =
        (case matchPattern ''/folders/'' input of
           Some fid \<Rightarrow> \<lparr>type = GoogleDrive, path = input, folderId = Some fid\<rparr>
         | None \<Rightarrow>
             (case matchPattern ''id='' input of
                Some fid \<Rightarrow> \<lparr>type = GoogleDrive, path = input, folderId = Some fid\<rparr>
              | None \<Rightarrow>
                  (case matchPattern ''/d/'' input of
                     Some fid \<Rightarrow> \<lparr>type = GoogleDrive, path = input, folderId = Some fid\<rparr>
                   | None \<Rightarrow> \<lparr>type = Local, path = input, folderId = None\<rparr>)))"
    using h by (auto simp: parse_def extractFolderId_order dest: matchPattern_nonempty split: option.splits)
next
  fix hostname
  assume "hostnameOf ''https://drive.google.com/drive/folders/ABC123'' = Some hostname
          \<and> includesStr hostname ''drive.google.com''"
  then show "parse hostnameOf ''https://drive.google.com/drive/folders/ABC123'' =
          \<lparr>type = GoogleDrive, path = ''https://drive.google.com/drive/folders/ABC123'',
           folderId = Some ''ABC123''\<rparr>"
    by (simp add: parse_def folders_example)
next
  fix hostname
  assume "hostnameOf ''https://drive.google.com/open?id=XYZ'' = Some hostname
          \<and> includesStr hostname ''drive.google.com''"
  then show "parse hostnameOf ''https://drive.google.com/open?id=XYZ'' =
          \<lparr>type = GoogleDrive, path = ''https://drive.google.com/open?id=XYZ'',
           folderId = Some ''XYZ''\<rparr>"
    by (simp add: parse_def open_id_example)
next
  fix hostname
  assume "hostnameOf ''https://drive.google.com/d/QRS'' = Some hostname
          \<and> includesStr hostname ''drive.google.com''"
  then show "parse hostnameOf ''https://drive.google.com/d/QRS'' =
          \<lparr>type = GoogleDrive, path = ''https://drive.google.com/d/QRS'',
           folderId = Some ''QRS''\<rparr>"
    by (simp add: parse_def d_example)
next
  fix h
  assume a: "(\<forall>x \<in> set h. x \<noteq> CHR ''/'' \<and> x \<noteq> CHR ''='') \<and> includesStr h ''drive.google.com''
          \<and> hostnameOf (''https://'' @ h @ ''/drive/folders/ABC123'') = Some h"
  from a have c: "\<forall>x \<in> set h. x \<noteq> CHR ''/'' \<and> x \<noteq> CHR ''=''"
    and i: "includesStr h ''drive.google.com''"
    and n: "hostnameOf (''https://'' @ h @ ''/drive/folders/ABC123'') = Some h"
    by blast+
  have e: "extractFolderId (''https://'' @ h @ ''/drive/folders/ABC123'') = Some ''ABC123''"
    using c i by (rule extractFolderId_any_host(1))
  show "parse hostnameOf (''https://'' @ h @ ''/drive/folders/ABC123'') =
          \<lparr>type = GoogleDrive, path = ''https://'' @ h @ ''/drive/folders/ABC123'',
           folderId = Some ''ABC123''\<rparr>"
    using n i e by (rule parse_found) simp
next
  fix h
  assume a: "(\<forall>x \<in> set h. x \<noteq> CHR ''/'' \<and> x \<noteq> CHR ''='') \<and> includesStr h ''drive.google.com''
          \<and> hostnameOf (''https://'' @ h @ ''/open?id=XYZ'') = Some h"
  from a have c: "\<forall>x \<in> set h. x \<noteq> CHR ''/'' \<and> x \<noteq> CHR ''=''"
    and i: "includesStr h ''drive.google.com''"
    and n: "hostnameOf (''https://'' @ h @ ''/open?id=XYZ'') = Some h"
    by blast+
  have e: "extractFolderId (''https://'' @ h @ ''/open?id=XYZ'') = Some ''XYZ''"
    using c i by (rule extractFolderId_any_host(2))
  show "parse hostnameOf (''https://'' @ h @ ''/open?id=XYZ'') =
          \<lparr>type = GoogleDrive, path = ''https://'' @ h @ ''/open?id=XYZ'',
           folderId = Some ''XYZ''\<rparr>"
    using n i e by (rule parse_found) simp
next
  fix h
  assume a: "(\<forall>x \<in> set h. x \<noteq> CHR ''/'' \<and> x \<noteq> CHR ''='') \<and> includesStr h ''drive.google.com''
          \<and> hostnameOf (''https://'' @ h @ ''/d/QRS'') = Some h"
  from a have c: "\<forall>x \<in> set h. x \<noteq> CHR ''/'' \<and> x \<noteq> CHR ''=''"
    and i: "includesStr h ''drive.google.com''"
    and n: "hostnameOf (''https://'' @ h @ ''/d/QRS'') = Some h"
    by blast+
  have e: "extractFolderId (''https://'' @ h @ ''/d/QRS'') = Some ''QRS''"
    using c i by (rule extractFolderId_any_host(3))
  show "parse hostnameOf (''https://'' @ h @ ''/d/QRS'') =
          \<lparr>type = GoogleDrive, path = ''https://'' @ h @ ''/d/QRS'',
           folderId = Some ''QRS''\<rparr>"
    using n i e by (rule parse_found) simp
qed

text \<open>
  The theorem at the sample runtime; the last input matches \<open>/d/\<close> earlier in the string
  and \<open>id=\<close> later, and the earlier pattern of the list decides.
\<close>

theorem classify_remote_folder_witness:
  "parse (url_hostname sampleRuntime) ''https://drive.google.com/drive/folders/ABC123'' =
     \<lparr>type = GoogleDrive, path = ''https://drive.google.com/drive/folders/ABC123'',
      folderId = Some ''ABC123''\<rparr>
   \<and> parse (url_hostname sampleRuntime) ''https://drive.google.com/open?id=XYZ'' =
       \<lparr>type = GoogleDrive, path = ''https://drive.google.com/open?id=XYZ'', folderId = Some ''XYZ''\<rparr>
   \<and> parse (url_hostname sampleRuntime) ''https://drive.google.com/d/QRS'' =
       \<lparr>type = GoogleDrive, path = ''https://drive.google.com/d/QRS'', folderId = Some ''QRS''\<rparr>
   \<and> parse (url_hostname sampleRuntime) ''https://drive.google.com/d/QRS?id=XYZ'' =
       \<lparr>type = GoogleDrive, path = ''https://drive.google.com/d/QRS?id=XYZ'', folderId = Some ''XYZ''\<rparr>
   \<and> CHR ''/'' \<notin> set ''drive.google.com'' \<and> CHR ''='' \<notin> set ''drive.google.com''
   \<and> includesStr ''drive.google.com'' ''drive.google.com''
   \<and> url_hostname sampleRuntime (''https://'' @ ''drive.google.com'' @ ''/open?id=XYZ'') =
       Some ''drive.google.com''
   \<and> folderId (parse (url_hostname sampleRuntime) (''https://'' @ ''drive.google.com'' @ ''/open?id=XYZ'')) =
       Some ''XYZ''"
proof -
  note t = classify_remote_folder [of "url_hostname sampleRuntime"]
  have h: "url_hostname sampleRuntime ''https://drive.google.com/d/QRS?id=XYZ'' = Some ''drive.google.com''
           \<and> includesStr ''drive.google.com'' ''drive.google.com''"
    by (simp add: sampleRuntime_def)
  have m: "matchPattern ''/folders/'' ''https://drive.google.com/d/QRS?id=XYZ'' = None"
          "matchPattern ''id='' ''https://drive.google.com/d/QRS?id=XYZ'' = Some ''XYZ''"
    by (simp_all add: matchHere_def idChar_def)
  have g: "parse (url_hostname sampleRuntime) ''https://drive.google.com/d/QRS?id=XYZ'' =
       \<lparr>type = GoogleDrive, path = ''https://drive.google.com/d/QRS?id=XYZ'', folderId = Some ''XYZ''\<rparr>"
    using t [THEN conjunct1, rule_format, OF h] m by simp
  have u: "url_hostname sampleRuntime ''https://drive.google.com/drive/folders/ABC123'' = Some ''drive.google.com''"
          "url_hostname sampleRuntime ''https://drive.google.com/open?id=XYZ'' = Some ''drive.google.com''"
          "url_hostname sampleRuntime ''https://drive.google.com/d/QRS'' = Some ''drive.google.com''"
    by (simp_all add: sampleRuntime_def)
  have i: "includesStr ''drive.google.com'' ''drive.google.com''"
    by simp
  have a: "parse (url_hostname sampleRuntime) ''https://drive.google.com/drive/folders/ABC123'' =
     \<lparr>type = GoogleDrive, path = ''https://drive.google.com/drive/folders/ABC123'',
      folderId = Some ''ABC123''\<rparr>"
    using t u(1) i by blast
  have b: "parse (url_hostname sampleRuntime) ''https://drive.google.com/open?id=XYZ'' =
       \<lparr>type = GoogleDrive, path = ''https://drive.google.com/open?id=XYZ'', folderId = Some ''XYZ''\<rparr>"
    using t u(2) i by blast
  have c: "parse (url_hostname sampleRuntime) ''https://drive.google.com/d/QRS'' =
       \<lparr>type = GoogleDrive, path = ''https://drive.google.com/d/QRS'', folderId = Some ''QRS''\<rparr>"
    using t u(3) i by blast
  have k: "\<forall>x \<in> set ''drive.google.com''. x \<noteq> CHR ''/'' \<and> x \<noteq> CHR ''=''"
    by simp
  have n: "url_hostname sampleRuntime (''https://'' @ ''drive.google.com'' @ ''/open?id=XYZ'') =
       Some ''drive.google.com''"
    by (simp add: sampleRuntime_def)
  have "parse (url_hostname sampleRuntime) (''https://'' @ ''drive.google.com'' @ ''/open?id=XYZ'') =
          \<lparr>type = GoogleDrive, path = ''https://'' @ ''drive.google.com'' @ ''/open?id=XYZ'',
           folderId = Some ''XYZ''\<rparr>"
    using t k i n by blast
  then have f: "folderId (parse (url_hostname sampleRuntime) (''https://'' @ ''drive.google.com'' @ ''/open?id=XYZ'')) =
       Some ''XYZ''"
    by simp
  have k': "CHR ''/'' \<notin> set ''drive.google.com'' \<and> CHR ''='' \<notin> set ''drive.google.com''"
    by simp
  show ?thesis
    using a b c g k' i n f by (simp del: append.simps)
qed

text \<open>
  Claim C4. An input that the URL constructor rejects, or whose host does not contain
  \<open>drive.google.com\<close>, or from which no folder identifier can be extracted, is classified
  \<open>Local\<close> with the input string unchanged as its path and no folder identifier.
\<close>

theorem classify_local:
  assumes "hostnameOf input = None
           \<or> (\<exists>hostname. hostnameOf input = Some hostname \<and> \<not> includesStr hostname ''drive.google.com'')
           \<or> extractFolderId input = None"
  shows "parse hostnameOf input = \<lparr>type = Local, path = input, folderId = None\<rparr>"
  using assms by (auto simp: parse_def split: option.splits)

text \<open>
  The three cases at the sample runtime.
\<close>

theorem classify_local_witness:
  "url_hostname sampleRuntime ''photos'' = None
   \<and> parse (url_hostname sampleRuntime) ''photos'' = \<lparr>type = Local, path = ''photos'', folderId = None\<rparr>
   \<and> url_hostname sampleRuntime ''https://example.org/d/QRS'' = Some ''example.org''
   \<and> \<not> includesStr ''example.org'' ''drive.google.com''
   \<and> parse (url_hostname sampleRuntime) ''https://example.org/d/QRS'' =
       \<lparr>type = Local, path = ''https://example.org/d/QRS'', folderId = None\<rparr>
   \<and> extractFolderId ''https://drive.google.com/about'' = None
   \<and> parse (url_hostname sampleRuntime) ''https://drive.google.com/about'' =
       \<lparr>type = Local, path = ''https://drive.google.com/about'', folderId = None\<rparr>"
proof -
  have a: "url_hostname sampleRuntime ''photos'' = None"
    by (simp add: sampleRuntime_def)
  have b: "url_hostname sampleRuntime ''https://example.org/d/QRS'' = Some ''example.org''"
          "\<not> includesStr ''example.org'' ''drive.google.com''"
    by (simp_all add: sampleRuntime_def)
  have c: "extractFolderId ''https://drive.google.com/about'' = None"
    by (simp add: extractFolderId_def patterns_def matchHere_def idChar_def)
  show ?thesis
    using a b c
      classify_local [of "url_hostname sampleRuntime" "''photos''"]
      classify_local [of "url_hostname sampleRuntime" "''https://example.org/d/QRS''"]
      classify_local [of "url_hostname sampleRuntime" "''https://drive.google.com/about''"]
    by simp
qed

section \<open>Properties of the local expander\<close>




lemma processLocalPath_snd:
  "snd (processLocalPath rt this inp w) = emit (PathExists (path_resolve rt inp)) w"
  by (simp add: processLocalPath_def Let_def split: option.splits sum.splits)




section \<open>Properties of the conversion of one file\<close>

lemma date_now_simps [simp]:
  "fst (date_now rt w) = clock rt (ticks w)"
  "ticks (snd (date_now rt w)) = Suc (ticks w)"
  "fs (snd (date_now rt w)) = fs w"
  "trace (snd (date_now rt w)) = trace w"
  by (simp_all add: date_now_def)

lemma isValidTiffFile_ticks: "ticks (snd (isValidTiffFile rt p w)) = ticks w"
  by (simp add: isValidTiffFile_def metadata_def emit_def split: option.splits sum.splits)

lemma ensureDir_fst: "fst (ensureDir rt p w) = fst (fs_ensureDir rt w p)"
  by (auto simp: ensureDir_def split: prod.splits sum.splits)

lemma ensureDir_snd:
  "ticks (snd (ensureDir rt p w)) = ticks w"
  "trace (snd (ensureDir rt p w)) = trace w @ [EnsureDir p]"
  "fs (snd (ensureDir rt p w)) =
     (case fst (fs_ensureDir rt w p) of
        Inl e \<Rightarrow> snd (fs_ensureDir rt w p)
      | Inr u \<Rightarrow> withDir (snd (fs_ensureDir rt w p)) p)"
  by (auto simp: ensureDir_def emit_def split: prod.splits sum.splits)

lemma ensureDir_resolved:
  "fst (fs_ensureDir rt w p) = Inr u \<Longrightarrow>
   ensureDir rt p w = (Inr (), (emit (EnsureDir p) w)\<lparr>fs := withDir (snd (fs_ensureDir rt w p)) p\<rparr>)"
  by (auto simp: ensureDir_def split: prod.splits sum.splits)

lemma ensureDir_rejected:
  "fst (fs_ensureDir rt w p) = Inl e \<Longrightarrow>
   ensureDir rt p w = (Inl e, (emit (EnsureDir p) w)\<lparr>fs := snd (fs_ensureDir rt w p)\<rparr>)"
  by (auto simp: ensureDir_def split: prod.splits sum.splits)

lemma ensureDir_ticks: "ticks (snd (ensureDir rt p w)) = ticks w"
  by (rule ensureDir_snd)

lemma toFile_fst: "fst (toFile rt src q dst w) = fst (sharp_toFile rt w src q dst)"
  by (simp add: toFile_def split: prod.splits)

lemma toFile_ticks: "ticks (snd (toFile rt src q dst w)) = ticks w"
  by (simp add: toFile_def emit_def split: prod.splits)

lemma convertFile_try_ticks: "ticks (snd (convertFile_try rt this p w)) = ticks w"
proof -
  have a: "\<And>b w1. isValidTiffFile rt p w = (b, w1) \<Longrightarrow> ticks w1 = ticks w"
    using isValidTiffFile_ticks [of rt p w] by simp
  have b: "\<And>d v r w2. ensureDir rt d v = (r, w2) \<Longrightarrow> ticks w2 = ticks v"
    using ensureDir_ticks by (metis snd_conv)
  have c: "\<And>s q d v r w3. toFile rt s q d v = (r, w3) \<Longrightarrow> ticks w3 = ticks v"
    using toFile_ticks by (metis snd_conv)
  show ?thesis
    by (auto simp: convertFile_try_def Let_def split: prod.splits bool.splits sum.splits dest!: a b c)
qed

lemma convertFile_ticks: "ticks (snd (convertFile rt this p w)) = ticks w + 2"
proof -
  have "ticks (snd (convertFile_try rt this p (snd (date_now rt w)))) = Suc (ticks w)"
    by (simp add: convertFile_try_ticks)
  then show ?thesis
    by (auto simp: convertFile_def Let_def date_now_def split: prod.splits sum.splits)
qed

lemma convertFile_time:
  "processingTime (fst (convertFile rt this p w)) = clock rt (Suc (ticks w)) - clock rt (ticks w)"
proof -
  have "ticks (snd (convertFile_try rt this p (snd (date_now rt w)))) = Suc (ticks w)"
    by (simp add: convertFile_try_ticks)
  then show ?thesis
    by (auto simp: convertFile_def Let_def date_now_def split: prod.splits sum.splits)
qed

lemma isValidTiffFile_iff:
  "fst (isValidTiffFile rt p w) \<longleftrightarrow>
     fs w p = Some (Inr File) \<and> tiffExt rt p \<and> sharp_metadata rt w p = Inr (Some ''tiff'')"
  by (auto simp: isValidTiffFile_def metadata_def split: option.splits sum.splits)

lemma isValidTiffFile_valid:
  "fs w p = Some (Inr File) \<Longrightarrow> tiffExt rt p \<Longrightarrow> sharp_metadata rt w p = Inr (Some ''tiff'') \<Longrightarrow>
   isValidTiffFile rt p w = (True, emit (Metadata p) w)"
  by (simp add: isValidTiffFile_def metadata_def)

lemma convertFile_try_invalid:
  "\<not> fst (isValidTiffFile rt p w) \<Longrightarrow>
   fst (convertFile_try rt this p w) = Inl (Error ''Input file is not a valid TIFF image'')"
  by (cases "isValidTiffFile rt p w") (simp add: convertFile_try_def)

lemma convertFile_try_valid:
  assumes "fs w p = Some (Inr File)" and "tiffExt rt p"
    and "sharp_metadata rt w p = Inr (Some ''tiff'')"
  shows "fst (convertFile_try rt this p w) =
     (case fst (fs_ensureDir rt (emit (Metadata p) w) (path_dirname rt (generateOutputPath rt this p))) of
        Inl e \<Rightarrow> Inl e
      | Inr u \<Rightarrow>
          (case fst (sharp_toFile rt
                       ((emit (EnsureDir (path_dirname rt (generateOutputPath rt this p))) (emit (Metadata p) w))
                          \<lparr>fs := withDir (snd (fs_ensureDir rt (emit (Metadata p) w)
                                                 (path_dirname rt (generateOutputPath rt this p))))
                                         (path_dirname rt (generateOutputPath rt this p))\<rparr>)
                       p (quality (options this)) (generateOutputPath rt this p)) of
             Inl e \<Rightarrow> Inl e
           | Inr u' \<Rightarrow> Inr (generateOutputPath rt this p)))"
proof (cases "fst (fs_ensureDir rt (emit (Metadata p) w) (path_dirname rt (generateOutputPath rt this p)))")
  case (Inl e)
  then show ?thesis
    by (simp add: convertFile_try_def isValidTiffFile_valid [OF assms] ensureDir_rejected [OF Inl] Let_def)
next
  case (Inr u)
  then show ?thesis
    by (simp add: convertFile_try_def isValidTiffFile_valid [OF assms] ensureDir_resolved [OF Inr] Let_def
          toFile_fst case_prod_beta split: sum.splits)
qed

lemma convertFile_fst:
  "fst (convertFile rt this p w) =
     (case fst (convertFile_try rt this p (snd (date_now rt w))) of
        Inr out \<Rightarrow>
          \<lparr>inputPath = p, outputPath = out, success = True, error = None,
           processingTime = clock rt (Suc (ticks w)) - clock rt (ticks w)\<rparr>
      | Inl e \<Rightarrow>
          \<lparr>inputPath = p, outputPath = [], success = False, error = Some (messageOf e),
           processingTime = clock rt (Suc (ticks w)) - clock rt (ticks w)\<rparr>)"
proof -
  have "ticks (snd (convertFile_try rt this p (snd (date_now rt w)))) = Suc (ticks w)"
    by (simp add: convertFile_try_ticks)
  then show ?thesis
    by (auto simp: convertFile_def Let_def date_now_def split: prod.splits sum.splits)
qed

text \<open>
  Claim C9. \<open>convertFile\<close> always returns a \<open>ConversionResult\<close> for its input path, and
  what it holds is decided by the file system, \<open>sharp\<close> and \<open>fs.ensureDir\<close> alone. When
  the path is not an existing regular file, or its extension is not \<open>.tif\<close>/\<open>.tiff\<close>, or
  the metadata cannot be read or is not TIFF, the result is \<open>success = False\<close> with the
  validation message and an empty output path. For a valid input, a rejection of
  \<open>fs.ensureDir\<close> on the output directory, or of the codec's \<open>toFile\<close>, gives
  \<open>success = False\<close> with the message of what was thrown and an empty output path; and
  when both resolve the result is \<open>success = True\<close>, no error and the generated output
  path.
\<close>

theorem convertFile_outcome:
  "(let w0 = snd (date_now rt w);
        valid = (fs w inp = Some (Inr File) \<and> tiffExt rt inp
                 \<and> sharp_metadata rt w0 inp = Inr (Some ''tiff''));
        w1 = emit (Metadata inp) w0;
        out = generateOutputPath rt this inp;
        dir = path_dirname rt out;
        madeDir = fs_ensureDir rt w1 dir;
        w2 = (emit (EnsureDir dir) w1)\<lparr>fs := withDir (snd madeDir) dir\<rparr>;
        encoded = sharp_toFile rt w2 inp (quality (options this)) out;
        result = fst (convertFile rt this inp w)
    in inputPath result = inp
       \<and> (\<not> valid \<longrightarrow>
            success result = False
            \<and> error result = Some ''Input file is not a valid TIFF image''
            \<and> outputPath result = [])
       \<and> (\<forall>e. valid \<and> fst madeDir = Inl e \<longrightarrow>
            success result = False \<and> error result = Some (messageOf e) \<and> outputPath result = [])
       \<and> (\<forall>e. valid \<and> fst madeDir = Inr () \<and> fst encoded = Inl e \<longrightarrow>
            success result = False \<and> error result = Some (messageOf e) \<and> outputPath result = [])
       \<and> (valid \<and> fst madeDir = Inr () \<and> fst encoded = Inr () \<longrightarrow>
            success result = True \<and> error result = None \<and> outputPath result = out))"
proof -
  define w0 where "w0 = snd (date_now rt w)"
  define a where "a = fst (convertFile_try rt this inp w0)"
  have f0: "fs w0 inp = fs w inp"
    by (simp add: w0_def)
  have r: "fst (convertFile rt this inp w) =
     (case a of
        Inr out \<Rightarrow>
          \<lparr>inputPath = inp, outputPath = out, success = True, error = None,
           processingTime = clock rt (Suc (ticks w)) - clock rt (ticks w)\<rparr>
      | Inl e \<Rightarrow>
          \<lparr>inputPath = inp, outputPath = [], success = False, error = Some (messageOf e),
           processingTime = clock rt (Suc (ticks w)) - clock rt (ticks w)\<rparr>)"
    unfolding a_def w0_def by (rule convertFile_fst)
  have i: "inputPath (fst (convertFile rt this inp w)) = inp"
    unfolding r by (cases a) simp_all
  have n: "\<not> (fs w inp = Some (Inr File) \<and> tiffExt rt inp \<and> sharp_metadata rt w0 inp = Inr (Some ''tiff''))
        \<Longrightarrow> a = Inl (Error ''Input file is not a valid TIFF image'')"
    unfolding a_def by (rule convertFile_try_invalid) (simp add: isValidTiffFile_iff f0)
  have v: "fs w inp = Some (Inr File) \<and> tiffExt rt inp \<and> sharp_metadata rt w0 inp = Inr (Some ''tiff'')
        \<Longrightarrow> a =
     (case fst (fs_ensureDir rt (emit (Metadata inp) w0) (path_dirname rt (generateOutputPath rt this inp))) of
        Inl e \<Rightarrow> Inl e
      | Inr u \<Rightarrow>
          (case fst (sharp_toFile rt
                       ((emit (EnsureDir (path_dirname rt (generateOutputPath rt this inp))) (emit (Metadata inp) w0))
                          \<lparr>fs := withDir (snd (fs_ensureDir rt (emit (Metadata inp) w0)
                                                 (path_dirname rt (generateOutputPath rt this inp))))
                                         (path_dirname rt (generateOutputPath rt this inp))\<rparr>)
                       inp (quality (options this)) (generateOutputPath rt this inp)) of
             Inl e \<Rightarrow> Inl e
           | Inr u' \<Rightarrow> Inr (generateOutputPath rt this inp)))"
    unfolding a_def by (rule convertFile_try_valid) (simp_all add: f0)
  have c2: "\<not> (fs w inp = Some (Inr File) \<and> tiffExt rt inp \<and> sharp_metadata rt w0 inp = Inr (Some ''tiff''))
      \<Longrightarrow> success (fst (convertFile rt this inp w)) = False
            \<and> error (fst (convertFile rt this inp w)) = Some ''Input file is not a valid TIFF image''
            \<and> outputPath (fst (convertFile rt this inp w)) = []"
    using n unfolding r by (simp add: messageOf_def)
  have c3: "\<And>e. (fs w inp = Some (Inr File) \<and> tiffExt rt inp \<and> sharp_metadata rt w0 inp = Inr (Some ''tiff''))
       \<and> fst (fs_ensureDir rt (emit (Metadata inp) w0) (path_dirname rt (generateOutputPath rt this inp))) = Inl e
      \<Longrightarrow> success (fst (convertFile rt this inp w)) = False
            \<and> error (fst (convertFile rt this inp w)) = Some (messageOf e)
            \<and> outputPath (fst (convertFile rt this inp w)) = []"
  proof -
    fix e
    assume h: "(fs w inp = Some (Inr File) \<and> tiffExt rt inp \<and> sharp_metadata rt w0 inp = Inr (Some ''tiff''))
       \<and> fst (fs_ensureDir rt (emit (Metadata inp) w0) (path_dirname rt (generateOutputPath rt this inp))) = Inl e"
    then have "a = Inl e" using v by simp
    then show "success (fst (convertFile rt this inp w)) = False
            \<and> error (fst (convertFile rt this inp w)) = Some (messageOf e)
            \<and> outputPath (fst (convertFile rt this inp w)) = []"
      unfolding r by simp
  qed
  have c4: "\<And>e. (fs w inp = Some (Inr File) \<and> tiffExt rt inp \<and> sharp_metadata rt w0 inp = Inr (Some ''tiff''))
       \<and> fst (fs_ensureDir rt (emit (Metadata inp) w0) (path_dirname rt (generateOutputPath rt this inp))) = Inr ()
       \<and> fst (sharp_toFile rt
                ((emit (EnsureDir (path_dirname rt (generateOutputPath rt this inp))) (emit (Metadata inp) w0))
                   \<lparr>fs := withDir (snd (fs_ensureDir rt (emit (Metadata inp) w0)
                                          (path_dirname rt (generateOutputPath rt this inp))))
                                  (path_dirname rt (generateOutputPath rt this inp))\<rparr>)
                inp (quality (options this)) (generateOutputPath rt this inp)) = Inl e
      \<Longrightarrow> success (fst (convertFile rt this inp w)) = False
            \<and> error (fst (convertFile rt this inp w)) = Some (messageOf e)
            \<and> outputPath (fst (convertFile rt this inp w)) = []"
  proof -
    fix e
    assume h: "(fs w inp = Some (Inr File) \<and> tiffExt rt inp \<and> sharp_metadata rt w0 inp = Inr (Some ''tiff''))
       \<and> fst (fs_ensureDir rt (emit (Metadata inp) w0) (path_dirname rt (generateOutputPath rt this inp))) = Inr ()
       \<and> fst (sharp_toFile rt
                ((emit (EnsureDir (path_dirname rt (generateOutputPath rt this inp))) (emit (Metadata inp) w0))
                   \<lparr>fs := withDir (snd (fs_ensureDir rt (emit (Metadata inp) w0)
                                          (path_dirname rt (generateOutputPath rt this inp))))
                                  (path_dirname rt (generateOutputPath rt this inp))\<rparr>)
                inp (quality (options this)) (generateOutputPath rt this inp)) = Inl e"
    then have "a = Inl e" using v by simp
    then show "success (fst (convertFile rt this inp w)) = False
            \<and> error (fst (convertFile rt this inp w)) = Some (messageOf e)
            \<and> outputPath (fst (convertFile rt this inp w)) = []"
      unfolding r by simp
  qed
  have c5: "(fs w inp = Some (Inr File) \<and> tiffExt rt inp \<and> sharp_metadata rt w0 inp = Inr (Some ''tiff''))
       \<and> fst (fs_ensureDir rt (emit (Metadata inp) w0) (path_dirname rt (generateOutputPath rt this inp))) = Inr ()
       \<and> fst (sharp_toFile rt
                ((emit (EnsureDir (path_dirname rt (generateOutputPath rt this inp))) (emit (Metadata inp) w0))
                   \<lparr>fs := withDir (snd (fs_ensureDir rt (emit (Metadata inp) w0)
                                          (path_dirname rt (generateOutputPath rt this inp))))
                                  (path_dirname rt (generateOutputPath rt this inp))\<rparr>)
                inp (quality (options this)) (generateOutputPath rt this inp)) = Inr ()
      \<Longrightarrow> success (fst (convertFile rt this inp w)) = True
            \<and> error (fst (convertFile rt this inp w)) = None
            \<and> outputPath (fst (convertFile rt this inp w)) = generateOutputPath rt this inp"
  proof -
    assume h: "(fs w inp = Some (Inr File) \<and> tiffExt rt inp \<and> sharp_metadata rt w0 inp = Inr (Some ''tiff''))
       \<and> fst (fs_ensureDir rt (emit (Metadata inp) w0) (path_dirname rt (generateOutputPath rt this inp))) = Inr ()
       \<and> fst (sharp_toFile rt
                ((emit (EnsureDir (path_dirname rt (generateOutputPath rt this inp))) (emit (Metadata inp) w0))
                   \<lparr>fs := withDir (snd (fs_ensureDir rt (emit (Metadata inp) w0)
                                          (path_dirname rt (generateOutputPath rt this inp))))
                                  (path_dirname rt (generateOutputPath rt this inp))\<rparr>)
                inp (quality (options this)) (generateOutputPath rt this inp)) = Inr ()"
    then have "a = Inr (generateOutputPath rt this inp)" using v by simp
    then show "success (fst (convertFile rt this inp w)) = True
            \<and> error (fst (convertFile rt this inp w)) = None
            \<and> outputPath (fst (convertFile rt this inp w)) = generateOutputPath rt this inp"
      unfolding r by simp
  qed
  show ?thesis
    unfolding Let_def w0_def [symmetric]
    using i c2 c3 c4 c5 by blast
qed

text \<open>
  A successful conversion, a file rejected by the metadata probe and a codec error.
\<close>

theorem convertFile_outcome_witness:
  "success (fst (convertFile sampleRuntime sampleConverter ''/work/photos/a.tif'' sampleWorld))
   \<and> outputPath (fst (convertFile sampleRuntime sampleConverter ''/work/photos/a.tif'' sampleWorld)) =
       ''/work/photos/a.jpg''
   \<and> sharp_metadata sampleRuntime (snd (date_now sampleRuntime sampleWorld)) ''/work/scan.tif''
       \<noteq> Inr (Some ''tiff'')
   \<and> \<not> success (fst (convertFile sampleRuntime sampleConverter ''/work/scan.tif'' sampleWorld))
   \<and> error (fst (convertFile sampleRuntime sampleConverter ''/work/scan.tif'' sampleWorld)) =
       Some ''Input file is not a valid TIFF image''
   \<and> \<not> success (fst (convertFile sampleRuntime sampleConverter ''/work/photos/b.TIFF'' sampleWorld))
   \<and> error (fst (convertFile sampleRuntime sampleConverter ''/work/photos/b.TIFF'' sampleWorld)) =
       Some ''tiff: read error''
   \<and> outputPath (fst (convertFile sampleRuntime sampleConverter ''/work/photos/b.TIFF'' sampleWorld)) = []"
proof -
  have g: "generateOutputPath sampleRuntime sampleConverter ''/work/photos/a.tif'' = ''/work/photos/a.jpg''"
    by code_simp
  have va: "fs sampleWorld ''/work/photos/a.tif'' = Some (Inr File) \<and> tiffExt sampleRuntime ''/work/photos/a.tif''
      \<and> sharp_metadata sampleRuntime (snd (date_now sampleRuntime sampleWorld)) ''/work/photos/a.tif'' = Inr (Some ''tiff'')"
    by code_simp
  have vb: "fs sampleWorld ''/work/photos/b.TIFF'' = Some (Inr File) \<and> tiffExt sampleRuntime ''/work/photos/b.TIFF''
      \<and> sharp_metadata sampleRuntime (snd (date_now sampleRuntime sampleWorld)) ''/work/photos/b.TIFF'' = Inr (Some ''tiff'')"
    by code_simp
  have c: "sharp_metadata sampleRuntime (snd (date_now sampleRuntime sampleWorld)) ''/work/scan.tif''
       \<noteq> Inr (Some ''tiff'')"
    by (simp add: sample_defs)
  have da: "fst (fs_ensureDir sampleRuntime (emit (Metadata ''/work/photos/a.tif'') (snd (date_now sampleRuntime sampleWorld)))
              (path_dirname sampleRuntime (generateOutputPath sampleRuntime sampleConverter ''/work/photos/a.tif''))) = Inr ()"
    by code_simp
  have db: "fst (fs_ensureDir sampleRuntime (emit (Metadata ''/work/photos/b.TIFF'') (snd (date_now sampleRuntime sampleWorld)))
              (path_dirname sampleRuntime (generateOutputPath sampleRuntime sampleConverter ''/work/photos/b.TIFF''))) = Inr ()"
    by code_simp
  have ta: "\<And>v. fst (sharp_toFile sampleRuntime v ''/work/photos/a.tif'' (quality (options sampleConverter))
                     (generateOutputPath sampleRuntime sampleConverter ''/work/photos/a.tif'')) = Inr ()"
    by (simp add: sampleRuntime_def)
  have tb: "\<And>v. fst (sharp_toFile sampleRuntime v ''/work/photos/b.TIFF'' (quality (options sampleConverter))
                     (generateOutputPath sampleRuntime sampleConverter ''/work/photos/b.TIFF'')) = Inl (Error ''tiff: read error'')"
    by (simp add: sampleRuntime_def)
  note ra = convertFile_outcome [of sampleRuntime sampleWorld "''/work/photos/a.tif''" sampleConverter]
  note rb = convertFile_outcome [of sampleRuntime sampleWorld "''/work/photos/b.TIFF''" sampleConverter]
  note rc = convertFile_outcome [of sampleRuntime sampleWorld "''/work/scan.tif''" sampleConverter]
  have a: "success (fst (convertFile sampleRuntime sampleConverter ''/work/photos/a.tif'' sampleWorld))
     \<and> outputPath (fst (convertFile sampleRuntime sampleConverter ''/work/photos/a.tif'' sampleWorld)) =
         generateOutputPath sampleRuntime sampleConverter ''/work/photos/a.tif''"
    using ra va da ta unfolding Let_def by simp
  have b: "\<not> success (fst (convertFile sampleRuntime sampleConverter ''/work/photos/b.TIFF'' sampleWorld))
     \<and> error (fst (convertFile sampleRuntime sampleConverter ''/work/photos/b.TIFF'' sampleWorld)) =
         Some (messageOf (Error ''tiff: read error''))
     \<and> outputPath (fst (convertFile sampleRuntime sampleConverter ''/work/photos/b.TIFF'' sampleWorld)) = []"
    using rb vb db tb unfolding Let_def by simp
  have s: "\<not> success (fst (convertFile sampleRuntime sampleConverter ''/work/scan.tif'' sampleWorld))
     \<and> error (fst (convertFile sampleRuntime sampleConverter ''/work/scan.tif'' sampleWorld)) =
         Some ''Input file is not a valid TIFF image''"
    using rc c unfolding Let_def by simp
  show ?thesis
    using a b s c g by (simp add: messageOf_def)
qed

section \<open>Properties of the batch conversion\<close>

lemma convertEach_fst:
  "fst (convertEach rt this ps st w) =
     st\<lparr>successful := successful st + int (length (filter success (outcomes rt this ps w))),
        failed := failed st + int (length (filter (\<lambda>r. \<not> success r) (outcomes rt this ps w)))\<rparr>"
  by (induction ps arbitrary: st w) (auto simp: Let_def split: prod.splits)

lemma convertEach_ticks:
  "ticks (snd (convertEach rt this ps st w)) = ticks w + 2 * length ps"
proof (induction ps arbitrary: st w)
  case Nil
  show ?case by simp
next
  case (Cons p ps)
  obtain r w' where c: "convertFile rt this p w = (r, w')" by (cases "convertFile rt this p w")
  then have "ticks w' = ticks w + 2" using convertFile_ticks [of rt this p w] by simp
  with c Cons show ?case by (simp add: Let_def)
qed

lemma length_outcomes: "length (outcomes rt this ps w) = length ps"
  by (induction ps arbitrary: w) (auto simp: Let_def split: prod.splits)

lemma convertFiles_fst:
  "fst (convertFiles rt this ps w) =
     \<lparr>total = int (length ps),
      successful = int (length (filter success (outcomes rt this ps (snd (date_now rt w))))),
      failed = int (length (filter (\<lambda>r. \<not> success r) (outcomes rt this ps (snd (date_now rt w))))),
      totalTime = clock rt (ticks w + 2 * length ps + 1) - clock rt (ticks w)\<rparr>"
proof -
  define st0 where "st0 = \<lparr>total = int (length ps), successful = 0, failed = 0, totalTime = 0\<rparr>"
  define w0 where "w0 = snd (date_now rt w)"
  obtain st' w1 where e: "convertEach rt this ps st0 w0 = (st', w1)"
    by (cases "convertEach rt this ps st0 w0")
  have "ticks (snd (convertEach rt this ps st0 w0)) = ticks w0 + 2 * length ps"
    by (rule convertEach_ticks)
  then have t: "ticks w1 = ticks w + 2 * length ps + 1"
    using e by (simp add: w0_def)
  have "fst (convertEach rt this ps st0 w0) =
     st0\<lparr>successful := successful st0 + int (length (filter success (outcomes rt this ps w0))),
        failed := failed st0 + int (length (filter (\<lambda>r. \<not> success r) (outcomes rt this ps w0)))\<rparr>"
    by (rule convertEach_fst)
  then have s: "st' = \<lparr>total = int (length ps),
      successful = int (length (filter success (outcomes rt this ps w0))),
      failed = int (length (filter (\<lambda>r. \<not> success r) (outcomes rt this ps w0))),
      totalTime = 0\<rparr>"
    using e by (simp add: st0_def)
  have "convertFiles rt this ps w = (st'\<lparr>totalTime := clock rt (ticks w1) - clock rt (ticks w)\<rparr>, w1\<lparr>ticks := Suc (ticks w1)\<rparr>)"
    using e by (simp add: convertFiles_def Let_def date_now_def st0_def w0_def)
  then show ?thesis
    using t s by (simp add: w0_def)
qed

lemma convertFiles_ticks:
  "ticks (snd (convertFiles rt this ps w)) = ticks w + 2 * length ps + 2"
proof -
  define st0 where "st0 = \<lparr>total = int (length ps), successful = 0, failed = 0, totalTime = 0\<rparr>"
  define w0 where "w0 = snd (date_now rt w)"
  obtain st' w1 where e: "convertEach rt this ps st0 w0 = (st', w1)"
    by (cases "convertEach rt this ps st0 w0")
  have "ticks (snd (convertEach rt this ps st0 w0)) = ticks w0 + 2 * length ps"
    by (rule convertEach_ticks)
  then have t: "ticks w1 = ticks w + 2 * length ps + 1"
    using e by (simp add: w0_def)
  have "convertFiles rt this ps w = (st'\<lparr>totalTime := clock rt (ticks w1) - clock rt (ticks w)\<rparr>, w1\<lparr>ticks := Suc (ticks w1)\<rparr>)"
    using e by (simp add: convertFiles_def Let_def date_now_def st0_def w0_def)
  then show ?thesis
    using t by simp
qed

lemma filter_split_length:
  "int (length (filter P xs)) = int (length xs) - int (length (filter (\<lambda>x. \<not> P x) xs))"
  using sum_length_filter_compl [of P xs] by simp

text \<open>
  Claim C1. For a list of K input paths of which exactly F produce a failed outcome,
  \<open>convertFiles\<close> returns \<open>total = K\<close>, \<open>failed = F\<close> and \<open>successful = K - F\<close>. It has no
  exceptional result, and every item is processed: there is one outcome per input and the
  clock has been read twice for each of them, whichever of them fail.
\<close>

theorem convertFiles_counts:
  "total (fst (convertFiles rt this inputPaths w)) = int (length inputPaths)
   \<and> length (outcomes rt this inputPaths (snd (date_now rt w))) = length inputPaths
   \<and> failed (fst (convertFiles rt this inputPaths w)) =
       int (length (filter (\<lambda>r. \<not> success r) (outcomes rt this inputPaths (snd (date_now rt w)))))
   \<and> successful (fst (convertFiles rt this inputPaths w)) =
       int (length inputPaths)
       - int (length (filter (\<lambda>r. \<not> success r) (outcomes rt this inputPaths (snd (date_now rt w)))))
   \<and> ticks (snd (convertFiles rt this inputPaths w)) = ticks w + 2 * length inputPaths + 2"
  using filter_split_length [of success "outcomes rt this inputPaths (snd (date_now rt w))"]
  by (simp add: convertFiles_fst convertFiles_ticks length_outcomes)

text \<open>
  Three files of which two fail.
\<close>

lemma sample_failures:
  "length (filter (\<lambda>r. \<not> success r) (outcomes sampleRuntime sampleConverter
             [''/work/photos/a.tif'', ''/work/photos/b.TIFF'', ''/work/photos/notes.txt'']
             (snd (date_now sampleRuntime sampleWorld)))) = 2"
  by code_simp

theorem convertFiles_counts_witness:
  "total (fst (convertFiles sampleRuntime sampleConverter
                 [''/work/photos/a.tif'', ''/work/photos/b.TIFF'', ''/work/photos/notes.txt''] sampleWorld)) = 3
   \<and> failed (fst (convertFiles sampleRuntime sampleConverter
                 [''/work/photos/a.tif'', ''/work/photos/b.TIFF'', ''/work/photos/notes.txt''] sampleWorld)) = 2
   \<and> successful (fst (convertFiles sampleRuntime sampleConverter
                 [''/work/photos/a.tif'', ''/work/photos/b.TIFF'', ''/work/photos/notes.txt''] sampleWorld)) = 1"
  using convertFiles_counts [of sampleRuntime sampleConverter
      "[''/work/photos/a.tif'', ''/work/photos/b.TIFF'', ''/work/photos/notes.txt'']" sampleWorld]
  by (simp add: sample_failures del: outcomes.simps)

text \<open>
  Claim C2 states that \<open>totalTime\<close> is the sum of the \<open>processingTime\<close> of the outcomes.
  With a clock that advances by 3 between two readings, one file gives a total of 9 and
  a sum of 3.
\<close>

theorem totalTime_not_sum_counterexample:
  "totalTime (fst (convertFiles sampleRuntime sampleConverter [''/work/photos/a.tif''] sampleWorld)) = 9
   \<and> sum_list (map processingTime
        (outcomes sampleRuntime sampleConverter [''/work/photos/a.tif'']
           (snd (date_now sampleRuntime sampleWorld)))) = 3
   \<and> totalTime (fst (convertFiles sampleRuntime sampleConverter [''/work/photos/a.tif''] sampleWorld))
       \<noteq> sum_list (map processingTime
            (outcomes sampleRuntime sampleConverter [''/work/photos/a.tif'']
               (snd (date_now sampleRuntime sampleWorld))))"
  by (simp add: sample_defs model_defs)

lemma outcomes_time:
  "mono (clock rt) \<Longrightarrow>
   sum_list (map processingTime (outcomes rt this ps w))
     \<le> clock rt (ticks w + 2 * length ps) - clock rt (ticks w)"
proof (induction ps arbitrary: w)
  case Nil
  show ?case by simp
next
  case (Cons p ps)
  obtain r w' where c: "convertFile rt this p w = (r, w')" by (cases "convertFile rt this p w")
  have t: "ticks w' = ticks w + 2" using convertFile_ticks [of rt this p w] c by simp
  have d: "processingTime r = clock rt (Suc (ticks w)) - clock rt (ticks w)"
    using convertFile_time [of rt this p w] c by simp
  have ih: "sum_list (map processingTime (outcomes rt this ps w'))
     \<le> clock rt (ticks w' + 2 * length ps) - clock rt (ticks w')"
    using Cons by simp
  have m: "clock rt (Suc (ticks w)) \<le> clock rt (ticks w + 2)"
    using Cons.prems by (simp add: mono_def)
  show ?case using c t d ih m by (simp add: Let_def)
qed

text \<open>
  Claim C2, amended. \<open>totalTime\<close> is the difference between the clock reading taken after
  the last file and the one taken before the first; with a clock that never goes
  backwards it is at least the sum of the \<open>processingTime\<close> of the outcomes.
\<close>

theorem convertFiles_totalTime:
  "totalTime (fst (convertFiles rt this inputPaths w)) =
     clock rt (ticks w + 2 * length inputPaths + 1) - clock rt (ticks w)
   \<and> (mono (clock rt) \<longrightarrow>
        sum_list (map processingTime (outcomes rt this inputPaths (snd (date_now rt w))))
          \<le> totalTime (fst (convertFiles rt this inputPaths w)))"
proof (intro conjI impI)
  show "totalTime (fst (convertFiles rt this inputPaths w)) =
     clock rt (ticks w + 2 * length inputPaths + 1) - clock rt (ticks w)"
    by (simp add: convertFiles_fst)
next
  assume m: "mono (clock rt)"
  have "sum_list (map processingTime (outcomes rt this inputPaths (snd (date_now rt w))))
     \<le> clock rt (ticks (snd (date_now rt w)) + 2 * length inputPaths) - clock rt (ticks (snd (date_now rt w)))"
    using m by (rule outcomes_time)
  moreover have "clock rt (ticks w) \<le> clock rt (Suc (ticks w))"
    using m by (simp add: mono_def)
  ultimately show "sum_list (map processingTime (outcomes rt this inputPaths (snd (date_now rt w))))
          \<le> totalTime (fst (convertFiles rt this inputPaths w))"
    by (simp add: convertFiles_fst)
qed

theorem convertFiles_totalTime_witness:
  "mono (clock sampleRuntime)
   \<and> totalTime (fst (convertFiles sampleRuntime sampleConverter
                      [''/work/photos/a.tif'', ''/work/photos/b.TIFF''] sampleWorld)) = 15
   \<and> sum_list (map processingTime
        (outcomes sampleRuntime sampleConverter [''/work/photos/a.tif'', ''/work/photos/b.TIFF'']
           (snd (date_now sampleRuntime sampleWorld))))
       \<le> totalTime (fst (convertFiles sampleRuntime sampleConverter
                      [''/work/photos/a.tif'', ''/work/photos/b.TIFF''] sampleWorld))"
proof -
  have m: "mono (clock sampleRuntime)"
    by (simp add: sampleRuntime_def mono_def)
  have t: "ticks sampleWorld = 0"
    by (simp add: sampleWorld_def)
  have c: "clock sampleRuntime 5 - clock sampleRuntime 0 = 15"
    by (simp add: sampleRuntime_def)
  show ?thesis
    using m t c convertFiles_totalTime [of sampleRuntime sampleConverter
      "[''/work/photos/a.tif'', ''/work/photos/b.TIFF'']" sampleWorld]
    by simp
qed

section \<open>Properties of the pipeline\<close>

lemma processLocalPath_quiet:
  "ticks (snd (processLocalPath rt this inp w)) = ticks w"
  "trace (snd (processLocalPath rt this inp w)) = trace w @ [PathExists (path_resolve rt inp)]"
  "fs (snd (processLocalPath rt this inp w)) = fs w"
  by (simp_all add: processLocalPath_snd emit_def)

lemma downloadEach_quiet:
  "ticks (snd (downloadEach rt svc td files acc w)) = ticks w
   \<and> (\<exists>es. trace (snd (downloadEach rt svc td files acc w)) = trace w @ es
            \<and> filter codecCall es = [])"
proof (induction files arbitrary: acc w)
  case Nil
  show ?case by simp
next
  case (Cons f0 files)
  define tempPath where "tempPath = path_join rt td (df_name f0)"
  obtain r f where d: "downloadFile svc w (df_id f0) tempPath = (r, f)"
    by (cases "downloadFile svc w (df_id f0) tempPath")
  define w' where "w' = (emit (DownloadFile (df_id f0) tempPath) w)\<lparr>fs := f\<rparr>"
  have t: "ticks w' = ticks w" "trace w' = trace w @ [DownloadFile (df_id f0) tempPath]"
    by (simp_all add: w'_def emit_def)
  show ?case
  proof (cases r)
    case (Inl e)
    then have "downloadEach rt svc td (f0 # files) acc w = (Inl e, w')"
      using d by (simp add: tempPath_def w'_def Let_def)
    then show ?thesis using t by simp
  next
    case (Inr u)
    then have s: "downloadEach rt svc td (f0 # files) acc w =
                  downloadEach rt svc td files (acc @ [tempPath]) w'"
      using d by (simp add: tempPath_def w'_def Let_def)
    from Cons [of "acc @ [tempPath]" w'] obtain es where
      "ticks (snd (downloadEach rt svc td files (acc @ [tempPath]) w')) = ticks w'"
      "trace (snd (downloadEach rt svc td files (acc @ [tempPath]) w')) = trace w' @ es"
      "filter codecCall es = []"
      by blast
    then show ?thesis using s t by simp
  qed
qed

lemma processGoogleDriveFolder_quiet:
  "ticks (snd (processGoogleDriveFolder rt this fid td w)) = ticks w
   \<and> (\<exists>es. trace (snd (processGoogleDriveFolder rt this fid td w)) = trace w @ es
            \<and> filter codecCall es = [])"
proof (cases "googleDriveService this")
  case None
  then show ?thesis by (simp add: processGoogleDriveFolder_def)
next
  case (Some svc)
  show ?thesis
  proof (cases "isInitialized svc")
    case False
    then show ?thesis using Some by (simp add: processGoogleDriveFolder_def)
  next
    case True
    show ?thesis
    proof (cases "listTiffFiles svc w fid")
      case (Inl e)
      then show ?thesis using Some True by (simp add: processGoogleDriveFolder_def emit_def)
    next
      case (Inr files)
      then have s: "processGoogleDriveFolder rt this fid td w =
                    downloadEach rt svc td files [] (emit (ListTiffFiles fid) w)"
        using Some True by (simp add: processGoogleDriveFolder_def)
      obtain es where
        "ticks (snd (downloadEach rt svc td files [] (emit (ListTiffFiles fid) w))) = ticks (emit (ListTiffFiles fid) w)"
        "trace (snd (downloadEach rt svc td files [] (emit (ListTiffFiles fid) w))) = trace (emit (ListTiffFiles fid) w) @ es"
        "filter codecCall es = []"
        using downloadEach_quiet [of rt svc td files "[]" "emit (ListTiffFiles fid) w"] by blast
      then show ?thesis using s by (simp add: emit_def)
    qed
  qed
qed

lemma expandInputs_quiet:
  "ticks (snd (expandInputs rt this td inputs acc w)) = ticks w
   \<and> (\<exists>es. trace (snd (expandInputs rt this td inputs acc w)) = trace w @ es
            \<and> filter codecCall es = [])"
proof (induction inputs arbitrary: acc w)
  case Nil
  show ?case by simp
next
  case (Cons input rest)
  define parsed where "parsed = parse (url_hostname rt) input"
  show ?case
  proof (cases "type parsed = GoogleDrive")
    case False
    obtain r w' where p: "processLocalPath rt this (path parsed) w = (r, w')"
      by (cases "processLocalPath rt this (path parsed) w")
    have q: "ticks w' = ticks w" "trace w' = trace w @ [PathExists (path_resolve rt (path parsed))]"
      using processLocalPath_quiet [of rt this "path parsed" w] p by simp_all
    show ?thesis
    proof (cases r)
      case (Inl e)
      then have "expandInputs rt this td (input # rest) acc w = (Inl e, w')"
        using False p by (simp add: parsed_def [symmetric])
      then show ?thesis using q by simp
    next
      case (Inr files)
      then have s: "expandInputs rt this td (input # rest) acc w =
                    expandInputs rt this td rest (acc @ files) w'"
        using False p by (simp add: parsed_def [symmetric])
      obtain es' where
        "ticks (snd (expandInputs rt this td rest (acc @ files) w')) = ticks w'"
        "trace (snd (expandInputs rt this td rest (acc @ files) w')) = trace w' @ es'"
        "filter codecCall es' = []"
        using Cons [of "acc @ files" w'] by blast
      then show ?thesis using s q by simp
    qed
  next
    case True
    show ?thesis
    proof (cases "googleDriveService this = None")
      case True
      then show ?thesis using \<open>type parsed = GoogleDrive\<close> by (simp add: parsed_def [symmetric])
    next
      case False
      then obtain svc where sv: "googleDriveService this = Some svc" by auto
      define fid where "fid = (case folderId parsed of Some fid \<Rightarrow> fid | None \<Rightarrow> ''undefined'')"
      obtain r w' where p: "processGoogleDriveFolder rt this fid td w = (r, w')"
        by (cases "processGoogleDriveFolder rt this fid td w")
      obtain es where q: "ticks w' = ticks w" "trace w' = trace w @ es" "filter codecCall es = []"
        using processGoogleDriveFolder_quiet [of rt this fid td w] p by auto
      show ?thesis
      proof (cases r)
        case (Inl e)
        then have "expandInputs rt this td (input # rest) acc w = (Inl e, w')"
          using \<open>type parsed = GoogleDrive\<close> sv p
          by (simp add: parsed_def [symmetric] fid_def [symmetric])
        then show ?thesis using q by simp
      next
        case (Inr files)
        then have s: "expandInputs rt this td (input # rest) acc w =
                      expandInputs rt this td rest (acc @ files) w'"
          using \<open>type parsed = GoogleDrive\<close> sv p
          by (simp add: parsed_def [symmetric] fid_def [symmetric])
        obtain es' where
          "ticks (snd (expandInputs rt this td rest (acc @ files) w')) = ticks w'"
          "trace (snd (expandInputs rt this td rest (acc @ files) w')) = trace w' @ es'"
          "filter codecCall es' = []"
          using Cons [of "acc @ files" w'] by blast
        then show ?thesis using s q by simp
      qed
    qed
  qed
qed

lemma expandInputs_append:
  "expandInputs rt this td (pre @ rest) acc w =
     (case expandInputs rt this td pre acc w of
        (Inl e, w') \<Rightarrow> (Inl e, w')
      | (Inr files, w') \<Rightarrow> expandInputs rt this td rest files w')"
  by (induction pre arbitrary: acc w) (auto simp: Let_def split: prod.splits sum.splits)

lemma downloadEach_append:
  "downloadEach rt svc td (pre @ rest) acc w =
     (case downloadEach rt svc td pre acc w of
        (Inl e, w') \<Rightarrow> (Inl e, w')
      | (Inr got, w') \<Rightarrow> downloadEach rt svc td rest got w')"
  by (induction pre arbitrary: acc w) (auto simp: Let_def split: prod.splits sum.splits)

text \<open>The \<open>finally\<close> block, in terms of what \<open>fs.remove\<close> answers.\<close>

lemma processInput_eq:
  "processInput rt this inputs w =
     processInput_finally rt (fst (processInput_try rt this inputs w))
       (snd (processInput_try rt this inputs w))"
  by (simp add: processInput_def split: prod.splits)

lemma remove_fst: "fst (remove rt p w) = fst (fs_remove rt w p)"
  by (auto simp: remove_def split: prod.splits sum.splits)

lemma remove_snd:
  "ticks (snd (remove rt p w)) = ticks w"
  "trace (snd (remove rt p w)) = trace w @ [Remove p]"
  "fs (snd (remove rt p w)) =
     (case fst (fs_remove rt w p) of
        Inl e \<Rightarrow> snd (fs_remove rt w p)
      | Inr u \<Rightarrow> (snd (fs_remove rt w p))(p := None))"
  by (auto simp: remove_def emit_def split: prod.splits sum.splits)

lemma finally_absent:
  "\<not> pathExists (tempDirOf rt) v \<Longrightarrow>
   processInput_finally rt r v = (r, emit (PathExists (tempDirOf rt)) v)"
  by (simp add: processInput_finally_def)

lemma finally_fst:
  "\<not> pathExists (tempDirOf rt) v \<Longrightarrow> fst (processInput_finally rt r v) = r"
  "pathExists (tempDirOf rt) v \<Longrightarrow>
     fst (fs_remove rt (emit (PathExists (tempDirOf rt)) v) (tempDirOf rt)) = Inr u \<Longrightarrow>
     fst (processInput_finally rt r v) = r"
  "pathExists (tempDirOf rt) v \<Longrightarrow>
     fst (fs_remove rt (emit (PathExists (tempDirOf rt)) v) (tempDirOf rt)) = Inl e \<Longrightarrow>
     fst (processInput_finally rt r v) = Inl e"
  by (auto simp: processInput_finally_def remove_def split: prod.splits sum.splits)

lemma finally_snd:
  "ticks (snd (processInput_finally rt r v)) = ticks v"
  "trace (snd (processInput_finally rt r v)) =
     trace v @ PathExists (tempDirOf rt) # (if pathExists (tempDirOf rt) v then [Remove (tempDirOf rt)] else [])"
  by (auto simp: processInput_finally_def remove_def emit_def split: prod.splits sum.splits)

lemma finally_gone:
  "\<not> pathExists (tempDirOf rt) v \<Longrightarrow> \<not> pathExists (tempDirOf rt) (snd (processInput_finally rt r v))"
  "pathExists (tempDirOf rt) v \<Longrightarrow>
     fst (fs_remove rt (emit (PathExists (tempDirOf rt)) v) (tempDirOf rt)) = Inr u \<Longrightarrow>
     \<not> pathExists (tempDirOf rt) (snd (processInput_finally rt r v))"
  by (auto simp: processInput_finally_def remove_def emit_def pathExists_def split: prod.splits sum.splits)

lemma finally_rejected:
  "pathExists (tempDirOf rt) v \<Longrightarrow>
     fst (fs_remove rt (emit (PathExists (tempDirOf rt)) v) (tempDirOf rt)) = Inl e \<Longrightarrow>
     fs (snd (processInput_finally rt r v)) =
       snd (fs_remove rt (emit (PathExists (tempDirOf rt)) v) (tempDirOf rt))"
  by (auto simp: processInput_finally_def remove_def emit_def split: prod.splits sum.splits)

lemma finally_codec:
  "filter codecCall (trace (snd (processInput_finally rt r v))) = filter codecCall (trace v)"
  by (simp add: finally_snd)

lemma processInput_try_setup_failed:
  "ensureDir rt (tempDirOf rt) w = (Inl e, w1) \<Longrightarrow> processInput_try rt this inputs w = (Inl e, w1)"
  by (simp add: processInput_try_def)

lemma processInput_try_expanded:
  "ensureDir rt (tempDirOf rt) w = (Inr u, w1) \<Longrightarrow>
   processInput_try rt this inputs w =
     (case expandInputs rt this (tempDirOf rt) inputs [] w1 of
        (Inl e, w2) \<Rightarrow> (Inl e, w2)
      | (Inr allFiles, w2) \<Rightarrow>
          if allFiles = []
          then (Inr \<lparr>total = 0, successful = 0, failed = 0, totalTime = 0\<rparr>, w2)
          else (Inr (fst (convertFiles rt this allFiles w2)), snd (convertFiles rt this allFiles w2)))"
  by (simp add: processInput_try_def split: prod.splits sum.splits)

text \<open>A \<open>try\<close> block that ends in an exception made no codec call and read no clock.\<close>

lemma processInput_try_Inl_quiet:
  assumes "fst (processInput_try rt this inputs w) = Inl e"
  shows "ticks (snd (processInput_try rt this inputs w)) = ticks w
         \<and> filter codecCall (trace (snd (processInput_try rt this inputs w))) = filter codecCall (trace w)"
proof -
  obtain r0 w1 where s: "ensureDir rt (tempDirOf rt) w = (r0, w1)"
    by (cases "ensureDir rt (tempDirOf rt) w")
  have w1: "ticks w1 = ticks w" "trace w1 = trace w @ [EnsureDir (tempDirOf rt)]"
    using ensureDir_snd [of rt "tempDirOf rt" w] s by simp_all
  show ?thesis
  proof (cases r0)
    case (Inl e0)
    then show ?thesis using s w1 by (simp add: processInput_try_setup_failed)
  next
    case (Inr u)
    obtain ex w2 where x: "expandInputs rt this (tempDirOf rt) inputs [] w1 = (ex, w2)"
      by (cases "expandInputs rt this (tempDirOf rt) inputs [] w1")
    obtain es where q: "ticks w2 = ticks w1" "trace w2 = trace w1 @ es" "filter codecCall es = []"
      using expandInputs_quiet [of rt this "tempDirOf rt" inputs "[]" w1] x by auto
    show ?thesis
    proof (cases ex)
      case (Inl e1)
      then have "processInput_try rt this inputs w = (Inl e1, w2)"
        using s Inr x by (simp add: processInput_try_expanded)
      then show ?thesis using q w1 by simp
    next
      case (Inr allFiles)
      then have "\<exists>st. fst (processInput_try rt this inputs w) = Inr st"
        using s \<open>r0 = Inr u\<close> x by (simp add: processInput_try_expanded)
      then show ?thesis using assms by simp
    qed
  qed
qed

text \<open>
  A failing input after inputs that expanded: the run is the \<open>finally\<close> block entered with
  that error in the state the failing call left, and no conversion was attempted.
\<close>

lemma processInput_pre_failure:
  assumes su: "ensureDir rt (tempDirOf rt) w = (Inr u, w1)"
    and pre: "expandInputs rt this (tempDirOf rt) pre [] w1 = (Inr files, v)"
    and step: "expandInputs rt this (tempDirOf rt) (input # post) files v = (Inl e, vf)"
  shows "processInput rt this (pre @ input # post) w = processInput_finally rt (Inl e) vf
         \<and> ticks (snd (processInput rt this (pre @ input # post) w)) = ticks w
         \<and> filter codecCall (trace (snd (processInput rt this (pre @ input # post) w)))
             = filter codecCall (trace w)"
proof -
  have "expandInputs rt this (tempDirOf rt) (pre @ input # post) [] w1 = (Inl e, vf)"
    using pre step by (simp add: expandInputs_append)
  then have t: "processInput_try rt this (pre @ input # post) w = (Inl e, vf)"
    using su by (simp add: processInput_try_expanded)
  then have q: "ticks vf = ticks w \<and> filter codecCall (trace vf) = filter codecCall (trace w)"
    using processInput_try_Inl_quiet [of rt this "pre @ input # post" w e] by simp
  have r: "processInput rt this (pre @ input # post) w = processInput_finally rt (Inl e) vf"
    using t by (simp add: processInput_eq)
  show ?thesis
    using q unfolding r by (simp add: finally_snd)
qed

lemma step_not_found:
  "type (parse (url_hostname rt) input) = Local \<Longrightarrow> fs v (path_resolve rt input) = None \<Longrightarrow>
   expandInputs rt this td (input # post) files v =
     (Inl (Error (''Path does not exist: '' @ input)), emit (PathExists (path_resolve rt input)) v)"
  by (simp add: processLocalPath_def parse_def Let_def split: option.splits if_splits)

lemma step_service_missing:
  "type (parse (url_hostname rt) input) = GoogleDrive \<Longrightarrow> googleDriveService this = None \<Longrightarrow>
   expandInputs rt this td (input # post) files v =
     (Inl (Error ''Google Drive service not initialized. Please provide credentials.''), v)"
  by simp

lemma step_service_uninitialized:
  "type (parse (url_hostname rt) input) = GoogleDrive \<Longrightarrow> googleDriveService this = Some svc \<Longrightarrow>
   \<not> isInitialized svc \<Longrightarrow>
   expandInputs rt this td (input # post) files v =
     (Inl (Error ''Google Drive service not properly initialized. Please provide valid credentials.''), v)"
  by (simp add: processGoogleDriveFolder_def)

lemma step_list_failed:
  "type (parse (url_hostname rt) input) = GoogleDrive \<Longrightarrow> folderId (parse (url_hostname rt) input) = Some fid \<Longrightarrow>
   googleDriveService this = Some svc \<Longrightarrow> isInitialized svc \<Longrightarrow>
   listTiffFiles svc v fid = Inl e \<Longrightarrow>
   expandInputs rt this td (input # post) files v = (Inl e, emit (ListTiffFiles fid) v)"
  by (simp add: processGoogleDriveFolder_def)

lemma downloadEach_one_failed:
  assumes "downloadEach rt svc td before [] v0 = (Inr got, v1)"
    and "downloadFile svc v1 (df_id f) (path_join rt td (df_name f)) = (Inl e, f')"
  shows "downloadEach rt svc td (before @ f # after) [] v0 =
           (Inl e, (emit (DownloadFile (df_id f) (path_join rt td (df_name f))) v1)\<lparr>fs := f'\<rparr>)"
  using assms by (simp add: downloadEach_append Let_def)

lemma step_download_failed:
  assumes "type (parse (url_hostname rt) input) = GoogleDrive"
    and "folderId (parse (url_hostname rt) input) = Some fid"
    and "googleDriveService this = Some svc" and "isInitialized svc"
    and "listTiffFiles svc v fid = Inr (before @ f # after)"
    and "downloadEach rt svc td before [] (emit (ListTiffFiles fid) v) = (Inr got, v1)"
    and "downloadFile svc v1 (df_id f) (path_join rt td (df_name f)) = (Inl e, f')"
  shows "expandInputs rt this td (input # post) files v =
           (Inl e, (emit (DownloadFile (df_id f) (path_join rt td (df_name f))) v1)\<lparr>fs := f'\<rparr>)"
proof -
  have "downloadEach rt svc td (before @ f # after) [] (emit (ListTiffFiles fid) v) =
          (Inl e, (emit (DownloadFile (df_id f) (path_join rt td (df_name f))) v1)\<lparr>fs := f'\<rparr>)"
    using assms(6,7) by (rule downloadEach_one_failed)
  then show ?thesis
    using assms(1-5) by (simp add: processGoogleDriveFolder_def)
qed

lemma processInput_expanded_stats:
  assumes su: "ensureDir rt (tempDirOf rt) w = (Inr u, w1)"
    and ex: "expandInputs rt this (tempDirOf rt) inputs [] w1 = (Inr allFiles, v2)"
  shows "\<exists>stats v3. processInput rt this inputs w = processInput_finally rt (Inr stats) v3
           \<and> total stats = int (length allFiles)
           \<and> failed stats =
               int (length (filter (\<lambda>r. \<not> success r) (outcomes rt this allFiles (snd (date_now rt v2)))))"
proof (cases "allFiles = []")
  case True
  then have "processInput_try rt this inputs w =
               (Inr \<lparr>total = 0, successful = 0, failed = 0, totalTime = 0\<rparr>, v2)"
    using su ex by (simp add: processInput_try_expanded)
  then have "processInput rt this inputs w =
               processInput_finally rt (Inr \<lparr>total = 0, successful = 0, failed = 0, totalTime = 0\<rparr>) v2"
    by (simp add: processInput_eq)
  then show ?thesis using True by fastforce
next
  case False
  then have "processInput_try rt this inputs w =
      (Inr (fst (convertFiles rt this allFiles v2)), snd (convertFiles rt this allFiles v2))"
    using su ex by (simp add: processInput_try_expanded)
  then have "processInput rt this inputs w =
      processInput_finally rt (Inr (fst (convertFiles rt this allFiles v2))) (snd (convertFiles rt this allFiles v2))"
    by (simp add: processInput_eq)
  moreover have "total (fst (convertFiles rt this allFiles v2)) = int (length allFiles)
     \<and> failed (fst (convertFiles rt this allFiles v2)) =
         int (length (filter (\<lambda>r. \<not> success r) (outcomes rt this allFiles (snd (date_now rt v2)))))"
    by (simp add: convertFiles_fst)
  ultimately show ?thesis by blast
qed

lemma finally_result:
  "fst (processInput_finally rt r vf) =
     (if pathExists (tempDirOf rt) vf
      then (case fst (fs_remove rt (emit (PathExists (tempDirOf rt)) vf) (tempDirOf rt)) of
              Inl e' \<Rightarrow> Inl e'
            | Inr u \<Rightarrow> r)
      else r)"
  by (auto simp: processInput_finally_def remove_def split: prod.splits sum.splits)

lemma processInput_aborted:
  assumes su: "ensureDir rt (tempDirOf rt) w = (Inr u, w1)"
    and pre: "expandInputs rt this (tempDirOf rt) pre [] w1 = (Inr files, v)"
    and step: "expandInputs rt this (tempDirOf rt) (input # post) files v = (Inl e, vf)"
  shows "processInput rt this (pre @ input # post) w = processInput_finally rt (Inl e) vf
     \<and> fst (processInput rt this (pre @ input # post) w) =
         (if pathExists (tempDirOf rt) vf
          then (case fst (fs_remove rt (emit (PathExists (tempDirOf rt)) vf) (tempDirOf rt)) of
                  Inl e' \<Rightarrow> Inl e'
                | Inr u \<Rightarrow> Inl e)
          else Inl e)
     \<and> trace (snd (processInput rt this (pre @ input # post) w)) =
         trace vf @ PathExists (tempDirOf rt) # (if pathExists (tempDirOf rt) vf then [Remove (tempDirOf rt)] else [])
     \<and> ticks (snd (processInput rt this (pre @ input # post) w)) = ticks w
     \<and> filter codecCall (trace (snd (processInput rt this (pre @ input # post) w)))
         = filter codecCall (trace w)"
proof -
  have a: "processInput rt this (pre @ input # post) w = processInput_finally rt (Inl e) vf
         \<and> ticks (snd (processInput rt this (pre @ input # post) w)) = ticks w
         \<and> filter codecCall (trace (snd (processInput rt this (pre @ input # post) w)))
             = filter codecCall (trace w)"
    using su pre step by (rule processInput_pre_failure)
  then have r: "processInput rt this (pre @ input # post) w = processInput_finally rt (Inl e) vf"
    by simp
  have b: "fst (processInput rt this (pre @ input # post) w) =
         (if pathExists (tempDirOf rt) vf
          then (case fst (fs_remove rt (emit (PathExists (tempDirOf rt)) vf) (tempDirOf rt)) of
                  Inl e' \<Rightarrow> Inl e'
                | Inr u \<Rightarrow> Inl e)
          else Inl e)"
    unfolding r by (rule finally_result)
  have c: "trace (snd (processInput rt this (pre @ input # post) w)) =
         trace vf @ PathExists (tempDirOf rt) # (if pathExists (tempDirOf rt) vf then [Remove (tempDirOf rt)] else [])"
    unfolding r by (rule finally_snd)
  show ?thesis using a b c by blast
qed

lemma processInput_completed:
  assumes su: "ensureDir rt (tempDirOf rt) w = (Inr u, w1)"
    and ex: "expandInputs rt this (tempDirOf rt) inputs [] w1 = (Inr allFiles, v2)"
  shows "processInput rt this inputs w =
           processInput_finally rt
             (Inr (if allFiles = [] then \<lparr>total = 0, successful = 0, failed = 0, totalTime = 0\<rparr>
                   else fst (convertFiles rt this allFiles v2)))
             (if allFiles = [] then v2 else snd (convertFiles rt this allFiles v2))"
  using su ex by (simp add: processInput_eq processInput_try_expanded)

text \<open>
  Claim C6. In a run whose staging directory was set up and whose inputs \<open>pre\<close> expanded
  without error, the next input aborts the whole run when it is a local path that does
  not exist, when it is a remote folder and no service is configured or the service is
  not initialized, when the listing fails, or when the download of any one listed file
  fails (the files before it having been downloaded). Aborted means: the \<open>finally\<close> block
  is entered with that error in the state the failing call left, so that the only calls
  after the failing one are the existence test and the removal of the staging directory
  (no further listing, download or input); the run ends in an exception, the error
  itself or, when \<open>fs.remove\<close> rejects, the error of \<open>fs.remove\<close>; and no codec call was
  made and no clock read, so no conversion was attempted and no statistics exist. A run
  whose expansion completes enters the \<open>finally\<close> block with statistics, in which the
  conversions that failed are counted.
\<close>

theorem fatal_errors_abort_run:
  assumes su: "ensureDir rt (tempDirOf rt) w = (Inr u, w1)"
    and pre: "expandInputs rt this (tempDirOf rt) pre [] w1 = (Inr files, v)"
  shows
    "(let td = tempDirOf rt;
          parsed = parse (url_hostname rt) input;
          run = processInput rt this (pre @ input # post) w;
          aborted = (\<lambda>e vf.
             run = processInput_finally rt (Inl e) vf
             \<and> fst run = (if pathExists td vf
                          then (case fst (fs_remove rt (emit (PathExists td) vf) td) of
                                  Inl e' \<Rightarrow> Inl e'
                                | Inr u \<Rightarrow> Inl e)
                          else Inl e)
             \<and> trace (snd run) = trace vf @ PathExists td # (if pathExists td vf then [Remove td] else [])
             \<and> ticks (snd run) = ticks w
             \<and> filter codecCall (trace (snd run)) = filter codecCall (trace w))
      in (type parsed = Local \<and> fs v (path_resolve rt input) = None \<longrightarrow>
            aborted (Error (''Path does not exist: '' @ input)) (emit (PathExists (path_resolve rt input)) v))
       \<and> (type parsed = GoogleDrive \<and> googleDriveService this = None \<longrightarrow>
            aborted (Error ''Google Drive service not initialized. Please provide credentials.'') v)
       \<and> (\<forall>svc. type parsed = GoogleDrive \<and> googleDriveService this = Some svc \<and> \<not> isInitialized svc \<longrightarrow>
            aborted (Error ''Google Drive service not properly initialized. Please provide valid credentials.'') v)
       \<and> (\<forall>svc fid e. type parsed = GoogleDrive \<and> folderId parsed = Some fid
              \<and> googleDriveService this = Some svc \<and> isInitialized svc
              \<and> listTiffFiles svc v fid = Inl e \<longrightarrow>
            aborted e (emit (ListTiffFiles fid) v))
       \<and> (\<forall>svc fid before f after got v1 e f'. type parsed = GoogleDrive \<and> folderId parsed = Some fid
              \<and> googleDriveService this = Some svc \<and> isInitialized svc
              \<and> listTiffFiles svc v fid = Inr (before @ f # after)
              \<and> downloadEach rt svc td before [] (emit (ListTiffFiles fid) v) = (Inr got, v1)
              \<and> downloadFile svc v1 (df_id f) (path_join rt td (df_name f)) = (Inl e, f') \<longrightarrow>
            aborted e ((emit (DownloadFile (df_id f) (path_join rt td (df_name f))) v1)\<lparr>fs := f'\<rparr>))
       \<and> (\<forall>allFiles v2. expandInputs rt this td (pre @ input # post) [] w1 = (Inr allFiles, v2) \<longrightarrow>
            (let stats = (if allFiles = [] then \<lparr>total = 0, successful = 0, failed = 0, totalTime = 0\<rparr>
                          else fst (convertFiles rt this allFiles v2));
                 v3 = (if allFiles = [] then v2 else snd (convertFiles rt this allFiles v2))
             in run = processInput_finally rt (Inr stats) v3
                \<and> fst run = (if pathExists td v3
                             then (case fst (fs_remove rt (emit (PathExists td) v3) td) of
                                     Inl e' \<Rightarrow> Inl e'
                                   | Inr u \<Rightarrow> Inr stats)
                             else Inr stats)
                \<and> total stats = int (length allFiles)
                \<and> failed stats =
                    int (length (filter (\<lambda>r. \<not> success r)
                                   (outcomes rt this allFiles (snd (date_now rt v2)))))
                \<and> successful stats =
                    int (length (filter success (outcomes rt this allFiles (snd (date_now rt v2))))))))"
proof -
  note ab = processInput_aborted [OF su pre]
  have c1: "type (parse (url_hostname rt) input) = Local \<and> fs v (path_resolve rt input) = None \<Longrightarrow>
      expandInputs rt this (tempDirOf rt) (input # post) files v =
        (Inl (Error (''Path does not exist: '' @ input)), emit (PathExists (path_resolve rt input)) v)"
    by (elim conjE) (rule step_not_found; assumption)
  have c2: "type (parse (url_hostname rt) input) = GoogleDrive \<and> googleDriveService this = None \<Longrightarrow>
      expandInputs rt this (tempDirOf rt) (input # post) files v =
        (Inl (Error ''Google Drive service not initialized. Please provide credentials.''), v)"
    by (elim conjE) (rule step_service_missing; assumption)
  have c3: "\<And>svc. type (parse (url_hostname rt) input) = GoogleDrive
            \<and> googleDriveService this = Some svc \<and> \<not> isInitialized svc \<Longrightarrow>
      expandInputs rt this (tempDirOf rt) (input # post) files v =
        (Inl (Error ''Google Drive service not properly initialized. Please provide valid credentials.''), v)"
    by (elim conjE) (rule step_service_uninitialized; assumption)
  have c4: "\<And>svc fid e. type (parse (url_hostname rt) input) = GoogleDrive
            \<and> folderId (parse (url_hostname rt) input) = Some fid
            \<and> googleDriveService this = Some svc \<and> isInitialized svc
            \<and> listTiffFiles svc v fid = Inl e \<Longrightarrow>
      expandInputs rt this (tempDirOf rt) (input # post) files v = (Inl e, emit (ListTiffFiles fid) v)"
    by (elim conjE) (rule step_list_failed; assumption)
  have c5: "\<And>svc fid before f after got v1 e f'. type (parse (url_hostname rt) input) = GoogleDrive
            \<and> folderId (parse (url_hostname rt) input) = Some fid
            \<and> googleDriveService this = Some svc \<and> isInitialized svc
            \<and> listTiffFiles svc v fid = Inr (before @ f # after)
            \<and> downloadEach rt svc (tempDirOf rt) before [] (emit (ListTiffFiles fid) v) = (Inr got, v1)
            \<and> downloadFile svc v1 (df_id f) (path_join rt (tempDirOf rt) (df_name f)) = (Inl e, f') \<Longrightarrow>
      expandInputs rt this (tempDirOf rt) (input # post) files v =
        (Inl e, (emit (DownloadFile (df_id f) (path_join rt (tempDirOf rt) (df_name f))) v1)\<lparr>fs := f'\<rparr>)"
  proof -
    fix svc fid before f after got v1 e f'
    assume a: "type (parse (url_hostname rt) input) = GoogleDrive
            \<and> folderId (parse (url_hostname rt) input) = Some fid
            \<and> googleDriveService this = Some svc \<and> isInitialized svc
            \<and> listTiffFiles svc v fid = Inr (before @ f # after)
            \<and> downloadEach rt svc (tempDirOf rt) before [] (emit (ListTiffFiles fid) v) = (Inr got, v1)
            \<and> downloadFile svc v1 (df_id f) (path_join rt (tempDirOf rt) (df_name f)) = (Inl e, f')"
    show "expandInputs rt this (tempDirOf rt) (input # post) files v =
        (Inl e, (emit (DownloadFile (df_id f) (path_join rt (tempDirOf rt) (df_name f))) v1)\<lparr>fs := f'\<rparr>)"
      by (rule step_download_failed [of rt input fid this svc v before f after "tempDirOf rt" got v1 e f'])
         (use a in simp_all)
  qed
  have c6: "\<And>allFiles v2. expandInputs rt this (tempDirOf rt) (pre @ input # post) [] w1 = (Inr allFiles, v2) \<Longrightarrow>
      (let stats = (if allFiles = [] then \<lparr>total = 0, successful = 0, failed = 0, totalTime = 0\<rparr>
                    else fst (convertFiles rt this allFiles v2));
           v3 = (if allFiles = [] then v2 else snd (convertFiles rt this allFiles v2))
       in processInput rt this (pre @ input # post) w = processInput_finally rt (Inr stats) v3
          \<and> fst (processInput rt this (pre @ input # post) w) =
               (if pathExists (tempDirOf rt) v3
                then (case fst (fs_remove rt (emit (PathExists (tempDirOf rt)) v3) (tempDirOf rt)) of
                        Inl e' \<Rightarrow> Inl e'
                      | Inr u \<Rightarrow> Inr stats)
                else Inr stats)
          \<and> total stats = int (length allFiles)
          \<and> failed stats =
              int (length (filter (\<lambda>r. \<not> success r)
                             (outcomes rt this allFiles (snd (date_now rt v2)))))
          \<and> successful stats =
              int (length (filter success (outcomes rt this allFiles (snd (date_now rt v2))))))"
  proof -
    fix allFiles v2
    assume ex: "expandInputs rt this (tempDirOf rt) (pre @ input # post) [] w1 = (Inr allFiles, v2)"
    define stats where "stats = (if allFiles = [] then \<lparr>total = 0, successful = 0, failed = 0, totalTime = 0\<rparr>
                    else fst (convertFiles rt this allFiles v2))"
    define v3 where "v3 = (if allFiles = [] then v2 else snd (convertFiles rt this allFiles v2))"
    have r: "processInput rt this (pre @ input # post) w = processInput_finally rt (Inr stats) v3"
      unfolding stats_def v3_def using su ex by (rule processInput_completed)
    have f: "fst (processInput rt this (pre @ input # post) w) =
               (if pathExists (tempDirOf rt) v3
                then (case fst (fs_remove rt (emit (PathExists (tempDirOf rt)) v3) (tempDirOf rt)) of
                        Inl e' \<Rightarrow> Inl e'
                      | Inr u \<Rightarrow> Inr stats)
                else Inr stats)"
      unfolding r by (rule finally_result)
    have s: "total stats = int (length allFiles)
          \<and> failed stats =
              int (length (filter (\<lambda>r. \<not> success r)
                             (outcomes rt this allFiles (snd (date_now rt v2)))))
          \<and> successful stats =
              int (length (filter success (outcomes rt this allFiles (snd (date_now rt v2)))))"
      by (simp add: stats_def convertFiles_fst)
    show "(let stats = (if allFiles = [] then \<lparr>total = 0, successful = 0, failed = 0, totalTime = 0\<rparr>
                    else fst (convertFiles rt this allFiles v2));
           v3 = (if allFiles = [] then v2 else snd (convertFiles rt this allFiles v2))
       in processInput rt this (pre @ input # post) w = processInput_finally rt (Inr stats) v3
          \<and> fst (processInput rt this (pre @ input # post) w) =
               (if pathExists (tempDirOf rt) v3
                then (case fst (fs_remove rt (emit (PathExists (tempDirOf rt)) v3) (tempDirOf rt)) of
                        Inl e' \<Rightarrow> Inl e'
                      | Inr u \<Rightarrow> Inr stats)
                else Inr stats)
          \<and> total stats = int (length allFiles)
          \<and> failed stats =
              int (length (filter (\<lambda>r. \<not> success r)
                             (outcomes rt this allFiles (snd (date_now rt v2)))))
          \<and> successful stats =
              int (length (filter success (outcomes rt this allFiles (snd (date_now rt v2))))))"
      unfolding Let_def stats_def [symmetric] v3_def [symmetric]
      using r f s by blast
  qed
  show ?thesis
    unfolding Let_def
    using ab [OF c1] ab [OF c2] ab [OF c3] ab [OF c4] ab [OF c5] c6 [unfolded Let_def]
    by blast
qed

text \<open>
  A missing local path, and a remote folder whose second download fails, each after a
  directory that expanded to two files and before an input that is never reached.
\<close>

theorem fatal_errors_abort_run_witness:
  "fst (ensureDir sampleRuntime (tempDirOf sampleRuntime) sampleWorld) = Inr ()
   \<and> fst (expandInputs sampleRuntime sampleConverter (tempDirOf sampleRuntime) [''photos''] []
            (snd (ensureDir sampleRuntime (tempDirOf sampleRuntime) sampleWorld))) =
       Inr [''/work/photos/a.tif'', ''/work/photos/b.TIFF'']
   \<and> fst (processInput sampleRuntime sampleConverter [''photos'', ''missing.tif'', ''scan.tif''] sampleWorld) =
       Inl (Error ''Path does not exist: missing.tif'')
   \<and> trace (snd (processInput sampleRuntime sampleConverter
                    [''photos'', ''missing.tif'', ''scan.tif''] sampleWorld)) =
       [EnsureDir ''/work/.temp-downloads'', PathExists ''/work/photos'', PathExists ''/work/missing.tif'',
        PathExists ''/work/.temp-downloads'', Remove ''/work/.temp-downloads'']
   \<and> ticks (snd (processInput sampleRuntime sampleConverter
                    [''photos'', ''missing.tif'', ''scan.tif''] sampleWorld)) = 0
   \<and> fst (processInput sampleRuntime sampleConverter
             [''photos'', ''https://drive.google.com/drive/folders/ABC123'', ''scan.tif''] sampleWorld) =
       Inl (Error ''Failed to download file: timeout'')
   \<and> trace (snd (processInput sampleRuntime sampleConverter
                    [''photos'', ''https://drive.google.com/drive/folders/ABC123'', ''scan.tif''] sampleWorld)) =
       [EnsureDir ''/work/.temp-downloads'', PathExists ''/work/photos'', ListTiffFiles ''ABC123'',
        DownloadFile ''f1'' ''/work/.temp-downloads/r1.tif'', DownloadFile ''f2'' ''/work/.temp-downloads/r2.tif'',
        PathExists ''/work/.temp-downloads'', Remove ''/work/.temp-downloads'']"
proof -
  define td where "td = tempDirOf sampleRuntime"
  define w1 where "w1 = snd (ensureDir sampleRuntime td sampleWorld)"
  define v where "v = snd (expandInputs sampleRuntime sampleConverter td [''photos''] [] w1)"
  define url where "url = ''https://drive.google.com/drive/folders/ABC123''"
  define f1 where "f1 = \<lparr>df_id = ''f1'', df_name = ''r1.tif'', df_mimeType = ''image/tiff'', df_size = None\<rparr>"
  define f2 where "f2 = \<lparr>df_id = ''f2'', df_name = ''r2.tif'', df_mimeType = ''image/tiff'', df_size = None\<rparr>"
  define v1 where "v1 = snd (downloadEach sampleRuntime sampleService td [f1] [] (emit (ListTiffFiles ''ABC123'') v))"
  define vm where "vm = emit (PathExists (path_resolve sampleRuntime ''missing.tif'')) v"
  define vd where "vd = (emit (DownloadFile (df_id f2) (path_join sampleRuntime td (df_name f2))) v1)\<lparr>fs := fs v1\<rparr>"
  note defs = td_def w1_def v_def url_def f1_def f2_def v1_def vm_def vd_def
  have tdv: "td = ''/work/.temp-downloads''"
    unfolding td_def by code_simp
  have s0: "fst (ensureDir sampleRuntime td sampleWorld) = Inr ()"
    unfolding defs by code_simp
  then have su: "ensureDir sampleRuntime (tempDirOf sampleRuntime) sampleWorld = (Inr (), w1)"
    by (simp add: w1_def td_def prod_eq_iff)
  have p0: "fst (expandInputs sampleRuntime sampleConverter td [''photos''] [] w1) =
       Inr [''/work/photos/a.tif'', ''/work/photos/b.TIFF'']"
    unfolding defs by code_simp
  then have pre: "expandInputs sampleRuntime sampleConverter (tempDirOf sampleRuntime) [''photos''] [] w1 =
       (Inr [''/work/photos/a.tif'', ''/work/photos/b.TIFF''], v)"
    by (simp add: v_def td_def prod_eq_iff)
  have l: "type (parse (url_hostname sampleRuntime) ''missing.tif'') = Local"
    by code_simp
  have n: "fs v (path_resolve sampleRuntime ''missing.tif'') = None"
    unfolding defs by code_simp
  have m1: "pathExists td vm"
    unfolding defs by code_simp
  have m2: "fst (fs_remove sampleRuntime (emit (PathExists td) vm) td) = Inr ()"
    unfolding defs by code_simp
  have m3: "trace vm = [EnsureDir ''/work/.temp-downloads'', PathExists ''/work/photos'', PathExists ''/work/missing.tif'']"
    unfolding defs by code_simp
  have g1: "type (parse (url_hostname sampleRuntime) url) = GoogleDrive"
    unfolding defs by code_simp
  have g2: "folderId (parse (url_hostname sampleRuntime) url) = Some ''ABC123''"
    unfolding defs by code_simp
  have g3: "googleDriveService sampleConverter = Some sampleService" "isInitialized sampleService"
    by (simp_all add: sampleConverter_def sampleService_def)
  have g4: "listTiffFiles sampleService v ''ABC123'' = Inr ([f1] @ f2 # [])"
    by (simp add: sampleService_def f1_def f2_def)
  have g5: "fst (downloadEach sampleRuntime sampleService td [f1] [] (emit (ListTiffFiles ''ABC123'') v)) =
              Inr [''/work/.temp-downloads/r1.tif'']"
    unfolding defs by code_simp
  then have g6: "downloadEach sampleRuntime sampleService (tempDirOf sampleRuntime) [f1] [] (emit (ListTiffFiles ''ABC123'') v) =
              (Inr [''/work/.temp-downloads/r1.tif''], v1)"
    by (simp add: v1_def td_def prod_eq_iff)
  have g7: "downloadFile sampleService v1 (df_id f2) (path_join sampleRuntime (tempDirOf sampleRuntime) (df_name f2)) =
              (Inl (Error ''Failed to download file: timeout''), fs v1)"
    by (simp add: sampleService_def f2_def)
  have d1: "pathExists td vd"
    unfolding defs by code_simp
  have d2: "fst (fs_remove sampleRuntime (emit (PathExists td) vd) td) = Inr ()"
    unfolding defs by code_simp
  have d3: "trace vd = [EnsureDir ''/work/.temp-downloads'', PathExists ''/work/photos'', ListTiffFiles ''ABC123'',
        DownloadFile ''f1'' ''/work/.temp-downloads/r1.tif'', DownloadFile ''f2'' ''/work/.temp-downloads/r2.tif'']"
    unfolding defs by code_simp
  have t: "ticks sampleWorld = 0"
    by (simp add: sampleWorld_def)
  note th1 = fatal_errors_abort_run [OF su pre, of "''missing.tif''" "[''scan.tif'']", unfolded Let_def td_def [symmetric]]
  note th2 = fatal_errors_abort_run [OF su pre, of url "[''scan.tif'']", unfolded Let_def td_def [symmetric]]
  have r1: "fst (processInput sampleRuntime sampleConverter ([''photos''] @ ''missing.tif'' # [''scan.tif'']) sampleWorld) =
              (if pathExists td vm
               then (case fst (fs_remove sampleRuntime (emit (PathExists td) vm) td) of
                       Inl e' \<Rightarrow> Inl e'
                     | Inr u \<Rightarrow> Inl (Error (''Path does not exist: '' @ ''missing.tif'')))
               else Inl (Error (''Path does not exist: '' @ ''missing.tif'')))
        \<and> trace (snd (processInput sampleRuntime sampleConverter ([''photos''] @ ''missing.tif'' # [''scan.tif'']) sampleWorld)) =
            trace vm @ PathExists td # (if pathExists td vm then [Remove td] else [])
        \<and> ticks (snd (processInput sampleRuntime sampleConverter ([''photos''] @ ''missing.tif'' # [''scan.tif'']) sampleWorld)) =
            ticks sampleWorld"
    unfolding vm_def using th1 l n by blast
  have r2: "fst (processInput sampleRuntime sampleConverter ([''photos''] @ url # [''scan.tif'']) sampleWorld) =
              (if pathExists td vd
               then (case fst (fs_remove sampleRuntime (emit (PathExists td) vd) td) of
                       Inl e' \<Rightarrow> Inl e'
                     | Inr u \<Rightarrow> Inl (Error ''Failed to download file: timeout''))
               else Inl (Error ''Failed to download file: timeout''))
        \<and> trace (snd (processInput sampleRuntime sampleConverter ([''photos''] @ url # [''scan.tif'']) sampleWorld)) =
            trace vd @ PathExists td # (if pathExists td vd then [Remove td] else [])"
    unfolding vd_def using th2 g1 g2 g3 g4 g6 [unfolded td_def [symmetric]] g7 [unfolded td_def [symmetric]] by blast
  show ?thesis
    using s0 p0 r1 r2 m1 m2 m3 d1 d2 d3 t
    unfolding td_def [symmetric] w1_def [symmetric]
    by (simp add: tdv url_def)
qed










text \<open>
  A run on which \<open>fs.remove\<close> rejects: the single input fails validation, the \<open>try\<close> block
  has its statistics, and the run ends in the error of \<open>fs.remove\<close> with the staging
  directory still there.
\<close>

theorem staging_directory_left_counterexample:
  "fst (processInput_try stuckRuntime sampleConverter [''scan.tif''] sampleWorld) =
     Inr \<lparr>total = 1, successful = 0, failed = 1, totalTime = 9\<rparr>
   \<and> fst (processInput stuckRuntime sampleConverter [''scan.tif''] sampleWorld) =
       Inl (Error ''EBUSY: resource busy or locked, rmdir'')
   \<and> pathExists (tempDirOf stuckRuntime)
       (snd (processInput stuckRuntime sampleConverter [''scan.tif''] sampleWorld))"
  by code_simp

text \<open>
  Claim C7, as the code has it. The \<open>finally\<close> block runs on every exit of the \<open>try\<close>
  block, with statistics or with an error. When the staging directory does not exist
  there, nothing is removed and the outcome of the \<open>try\<close> block stands. When it exists,
  \<open>fs.remove\<close> is the last call of the run; if it resolves, the directory does not exist
  afterwards and the outcome of the \<open>try\<close> block stands; if it rejects, the run ends in
  that error instead, in the file system \<open>fs.remove\<close> left. So the directory exists
  after a run only when \<open>fs.remove\<close> rejected, and then the run ended in its error.
\<close>

theorem staging_directory_removed:
  "(let td = tempDirOf rt;
        t = processInput_try rt this inputs w;
        run = processInput rt this inputs w;
        removal = fs_remove rt (emit (PathExists td) (snd t)) td
    in run = processInput_finally rt (fst t) (snd t)
       \<and> (\<not> pathExists td (snd t) \<longrightarrow>
            \<not> pathExists td (snd run) \<and> fst run = fst t
            \<and> trace (snd run) = trace (snd t) @ [PathExists td])
       \<and> (pathExists td (snd t) \<longrightarrow>
            trace (snd run) = trace (snd t) @ [PathExists td, Remove td])
       \<and> (pathExists td (snd t) \<and> fst removal = Inr () \<longrightarrow>
            \<not> pathExists td (snd run) \<and> fst run = fst t)
       \<and> (\<forall>e. pathExists td (snd t) \<and> fst removal = Inl e \<longrightarrow>
            fst run = Inl e \<and> fs (snd run) = snd removal)
       \<and> (pathExists td (snd run) \<longrightarrow>
            (\<exists>e. fst removal = Inl e \<and> fst run = Inl e)))"
proof -
  define td where "td = tempDirOf rt"
  define t where "t = processInput_try rt this inputs w"
  define run where "run = processInput rt this inputs w"
  define removal where "removal = fs_remove rt (emit (PathExists td) (snd t)) td"
  have r: "run = processInput_finally rt (fst t) (snd t)"
    unfolding run_def t_def by (rule processInput_eq)
  have a: "\<not> pathExists td (snd t) \<Longrightarrow>
            \<not> pathExists td (snd run) \<and> fst run = fst t
            \<and> trace (snd run) = trace (snd t) @ [PathExists td]"
    unfolding r td_def by (simp add: finally_gone finally_fst finally_snd)
  have b: "pathExists td (snd t) \<Longrightarrow> trace (snd run) = trace (snd t) @ [PathExists td, Remove td]"
    unfolding r td_def by (simp add: finally_snd)
  have c: "pathExists td (snd t) \<and> fst removal = Inr () \<Longrightarrow>
            \<not> pathExists td (snd run) \<and> fst run = fst t"
    unfolding r td_def removal_def by (simp add: finally_gone finally_fst)
  have d: "\<And>e. pathExists td (snd t) \<and> fst removal = Inl e \<Longrightarrow>
            fst run = Inl e \<and> fs (snd run) = snd removal"
    unfolding r td_def removal_def by (simp add: finally_fst finally_rejected)
  have e: "pathExists td (snd run) \<Longrightarrow> (\<exists>e. fst removal = Inl e \<and> fst run = Inl e)"
  proof -
    assume x: "pathExists td (snd run)"
    then have y: "pathExists td (snd t)" using a by blast
    show ?thesis
    proof (cases "fst removal")
      case (Inl e)
      then show ?thesis using d y by blast
    next
      case (Inr u)
      then show ?thesis using c x y by simp
    qed
  qed
  show ?thesis
    unfolding Let_def td_def [symmetric] t_def [symmetric] run_def [symmetric] removal_def [symmetric]
    using r a b c d e by blast
qed

text \<open>
  The same input on a runtime whose \<open>fs.remove\<close> resolves and on one where it rejects.
\<close>

theorem staging_directory_removed_witness:
  "pathExists (tempDirOf sampleRuntime)
     (snd (processInput_try sampleRuntime sampleConverter [''scan.tif''] sampleWorld))
   \<and> \<not> pathExists (tempDirOf sampleRuntime)
         (snd (processInput sampleRuntime sampleConverter [''scan.tif''] sampleWorld))
   \<and> fst (processInput sampleRuntime sampleConverter [''scan.tif''] sampleWorld) =
       Inr \<lparr>total = 1, successful = 0, failed = 1, totalTime = 9\<rparr>
   \<and> pathExists (tempDirOf stuckRuntime)
       (snd (processInput_try stuckRuntime sampleConverter [''scan.tif''] sampleWorld))
   \<and> fst (processInput stuckRuntime sampleConverter [''scan.tif''] sampleWorld) =
       Inl (Error ''EBUSY: resource busy or locked, rmdir'')"
proof -
  have a: "pathExists (tempDirOf sampleRuntime)
     (snd (processInput_try sampleRuntime sampleConverter [''scan.tif''] sampleWorld))"
    by code_simp
  have b: "fst (fs_remove sampleRuntime
              (emit (PathExists (tempDirOf sampleRuntime))
                 (snd (processInput_try sampleRuntime sampleConverter [''scan.tif''] sampleWorld)))
              (tempDirOf sampleRuntime)) = Inr ()"
    by (simp add: sampleRuntime_def)
  have c: "fst (processInput_try sampleRuntime sampleConverter [''scan.tif''] sampleWorld) =
       Inr \<lparr>total = 1, successful = 0, failed = 1, totalTime = 9\<rparr>"
    by code_simp
  have d: "pathExists (tempDirOf stuckRuntime)
       (snd (processInput_try stuckRuntime sampleConverter [''scan.tif''] sampleWorld))"
    by code_simp
  have e: "fst (fs_remove stuckRuntime
              (emit (PathExists (tempDirOf stuckRuntime))
                 (snd (processInput_try stuckRuntime sampleConverter [''scan.tif''] sampleWorld)))
              (tempDirOf stuckRuntime)) = Inl (Error ''EBUSY: resource busy or locked, rmdir'')"
    by (simp add: stuckRuntime_def)
  have x: "\<not> pathExists (tempDirOf sampleRuntime)
         (snd (processInput sampleRuntime sampleConverter [''scan.tif''] sampleWorld))
      \<and> fst (processInput sampleRuntime sampleConverter [''scan.tif''] sampleWorld) =
          fst (processInput_try sampleRuntime sampleConverter [''scan.tif''] sampleWorld)"
    using staging_directory_removed [of sampleRuntime sampleConverter "[''scan.tif'']" sampleWorld, unfolded Let_def]
      a b by blast
  have y: "fst (processInput stuckRuntime sampleConverter [''scan.tif''] sampleWorld) =
       Inl (Error ''EBUSY: resource busy or locked, rmdir'')"
    using staging_directory_removed [of stuckRuntime sampleConverter "[''scan.tif'']" sampleWorld, unfolded Let_def]
      d e by blast
  show ?thesis
    using a c d x y by simp
qed

lemma withDir_dir: "\<exists>n. withDir f p p = Some (Inr n) \<and> isDirectory n"
proof (cases "f p")
  case None
  then show ?thesis by (simp add: withDir_def)
next
  case (Some r)
  show ?thesis
  proof (cases r)
    case (Inl e)
    then show ?thesis using Some by (simp add: withDir_def)
  next
    case (Inr n)
    then show ?thesis using Some by (cases n) (simp_all add: withDir_def)
  qed
qed

lemma ensureDir_exists:
  "fst (fs_ensureDir rt w p) = Inr u \<Longrightarrow> pathExists p (snd (ensureDir rt p w))"
  using withDir_dir [of "snd (fs_ensureDir rt w p)" p]
  by (auto simp: pathExists_def ensureDir_snd)

text \<open>
  Two runs whose candidate list is empty and that return no statistics: an empty input
  list when a regular file sits at the path of the staging directory, so that
  \<open>fs.ensureDir\<close> rejects, and a directory without TIFF files on a runtime whose
  \<open>fs.remove\<close> rejects.
\<close>

theorem empty_list_error_counterexample:
  "fst (processInput sampleRuntime sampleConverter [] blockedWorld) =
     Inl (Error ''EEXIST: file already exists, mkdir'')
   \<and> fst (expandInputs stuckRuntime sampleConverter (tempDirOf stuckRuntime) [''empty''] []
            (snd (ensureDir stuckRuntime (tempDirOf stuckRuntime) sampleWorld))) = Inr []
   \<and> fst (processInput stuckRuntime sampleConverter [''empty''] sampleWorld) =
       Inl (Error ''EBUSY: resource busy or locked, rmdir'')"
  by code_simp

text \<open>
  Claim C8, as the code has it. When \<open>fs.ensureDir\<close> resolved for the staging directory
  and the inputs expand to an empty list, the \<open>try\<close> block ends with the zero statistics
  in the state the expansion left, no codec call is made and no clock is read; the run
  returns the zero statistics unless the staging directory exists and \<open>fs.remove\<close>
  rejects, and then it ends in that error. An empty input list always expands to the
  empty list, in the state \<open>fs.ensureDir\<close> left, and the calls of such a run are exactly
  \<open>fs.ensureDir\<close>, \<open>fs.pathExists\<close> and \<open>fs.remove\<close>: no remote call. When \<open>fs.ensureDir\<close>
  rejects, the run ends in an exception whatever the inputs are.
\<close>

theorem empty_candidate_list:
  "(let td = tempDirOf rt;
        made = fs_ensureDir rt w td;
        w1 = (emit (EnsureDir td) w)\<lparr>fs := withDir (snd made) td\<rparr>;
        x = expandInputs rt this td inputs [] w1;
        run = processInput rt this inputs w;
        removal = fs_remove rt (emit (PathExists td) (snd x)) td;
        zero = \<lparr>total = 0, successful = 0, failed = 0, totalTime = 0\<rparr>
    in (fst made = Inr () \<and> fst x = Inr [] \<longrightarrow>
          processInput_try rt this inputs w = (Inr zero, snd x)
          \<and> fst run = (if pathExists td (snd x)
                       then (case fst removal of Inl e \<Rightarrow> Inl e | Inr u \<Rightarrow> Inr zero)
                       else Inr zero)
          \<and> ticks (snd run) = ticks w
          \<and> filter codecCall (trace (snd run)) = filter codecCall (trace w))
       \<and> (inputs = [] \<longrightarrow> x = (Inr [], w1))
       \<and> (fst made = Inr () \<and> inputs = [] \<longrightarrow>
            pathExists td w1
            \<and> trace (snd run) = trace w @ [EnsureDir td, PathExists td, Remove td])
       \<and> (\<forall>e. fst made = Inl e \<longrightarrow> (\<exists>e'. fst run = Inl e')))"
proof -
  define td where "td = tempDirOf rt"
  define made where "made = fs_ensureDir rt w td"
  define w1 where "w1 = (emit (EnsureDir td) w)\<lparr>fs := withDir (snd made) td\<rparr>"
  define x where "x = expandInputs rt this td inputs [] w1"
  define run where "run = processInput rt this inputs w"
  define removal where "removal = fs_remove rt (emit (PathExists td) (snd x)) td"
  define zero where "zero = \<lparr>total = 0, successful = 0, failed = 0, totalTime = 0\<rparr>"
  have su: "fst made = Inr () \<Longrightarrow> ensureDir rt (tempDirOf rt) w = (Inr (), w1)"
    unfolding made_def w1_def td_def by (rule ensureDir_resolved)
  have a: "fst made = Inr () \<and> fst x = Inr [] \<Longrightarrow>
          processInput_try rt this inputs w = (Inr zero, snd x)
          \<and> fst run = (if pathExists td (snd x)
                       then (case fst removal of Inl e \<Rightarrow> Inl e | Inr u \<Rightarrow> Inr zero)
                       else Inr zero)
          \<and> ticks (snd run) = ticks w
          \<and> filter codecCall (trace (snd run)) = filter codecCall (trace w)"
  proof -
    assume h: "fst made = Inr () \<and> fst x = Inr []"
    then have s: "ensureDir rt (tempDirOf rt) w = (Inr (), w1)" using su by simp
    have ex: "expandInputs rt this (tempDirOf rt) inputs [] w1 = (Inr [], snd x)"
      using h by (simp add: x_def td_def prod_eq_iff)
    have t: "processInput_try rt this inputs w = (Inr zero, snd x)"
      using s ex by (simp add: processInput_try_expanded zero_def)
    then have r: "run = processInput_finally rt (Inr zero) (snd x)"
      by (simp add: run_def processInput_eq)
    have f: "fst run = (if pathExists td (snd x)
                       then (case fst removal of Inl e \<Rightarrow> Inl e | Inr u \<Rightarrow> Inr zero)
                       else Inr zero)"
      unfolding r td_def removal_def by (rule finally_result)
    obtain es where q: "ticks (snd x) = ticks w1" "trace (snd x) = trace w1 @ es" "filter codecCall es = []"
      using expandInputs_quiet [of rt this td inputs "[]" w1] by (auto simp: x_def)
    have w1q: "ticks w1 = ticks w" "trace w1 = trace w @ [EnsureDir td]"
      by (simp_all add: w1_def emit_def)
    have k: "ticks (snd run) = ticks w" "filter codecCall (trace (snd run)) = filter codecCall (trace w)"
      unfolding r using q w1q by (simp_all add: finally_snd)
    show ?thesis using t f k by blast
  qed
  have b: "inputs = [] \<Longrightarrow> x = (Inr [], w1)"
    by (simp add: x_def)
  have c: "fst made = Inr () \<and> inputs = [] \<Longrightarrow>
            pathExists td w1 \<and> trace (snd run) = trace w @ [EnsureDir td, PathExists td, Remove td]"
  proof -
    assume h: "fst made = Inr () \<and> inputs = []"
    then have s: "ensureDir rt (tempDirOf rt) w = (Inr (), w1)" using su by simp
    have p: "pathExists td w1"
      using ensureDir_exists [of rt w td "()"] h s by (simp add: made_def td_def)
    have "processInput_try rt this inputs w = (Inr zero, w1)"
      using s h by (simp add: processInput_try_expanded zero_def)
    then have r: "run = processInput_finally rt (Inr zero) w1"
      by (simp add: run_def processInput_eq)
    have "trace (snd run) = trace w @ [EnsureDir td, PathExists td, Remove td]"
      unfolding r using p by (simp add: finally_snd td_def w1_def emit_def)
    then show ?thesis using p by simp
  qed
  have d: "\<And>e. fst made = Inl e \<Longrightarrow> \<exists>e'. fst run = Inl e'"
  proof -
    fix e
    assume h: "fst made = Inl e"
    have "ensureDir rt (tempDirOf rt) w = (Inl e, (emit (EnsureDir td) w)\<lparr>fs := snd made\<rparr>)"
      using h unfolding made_def td_def by (rule ensureDir_rejected)
    then have "processInput_try rt this inputs w = (Inl e, (emit (EnsureDir td) w)\<lparr>fs := snd made\<rparr>)"
      by (rule processInput_try_setup_failed)
    then have r: "run = processInput_finally rt (Inl e) ((emit (EnsureDir td) w)\<lparr>fs := snd made\<rparr>)"
      by (simp add: run_def processInput_eq)
    show "\<exists>e'. fst run = Inl e'"
      unfolding r by (simp add: finally_result split: sum.splits)
  qed
  show ?thesis
    unfolding Let_def td_def [symmetric] made_def [symmetric] w1_def [symmetric] x_def [symmetric]
      run_def [symmetric] removal_def [symmetric] zero_def [symmetric]
    using a b c d by blast
qed

text \<open>
  An empty input list, and a directory without TIFF files.
\<close>

theorem empty_candidate_list_witness:
  "fst (fs_ensureDir sampleRuntime sampleWorld (tempDirOf sampleRuntime)) = Inr ()
   \<and> fst (processInput sampleRuntime sampleConverter [] sampleWorld) =
       Inr \<lparr>total = 0, successful = 0, failed = 0, totalTime = 0\<rparr>
   \<and> trace (snd (processInput sampleRuntime sampleConverter [] sampleWorld)) =
       [EnsureDir ''/work/.temp-downloads'', PathExists ''/work/.temp-downloads'', Remove ''/work/.temp-downloads'']
   \<and> fst (processInput sampleRuntime sampleConverter [''empty''] sampleWorld) =
       Inr \<lparr>total = 0, successful = 0, failed = 0, totalTime = 0\<rparr>
   \<and> ticks (snd (processInput sampleRuntime sampleConverter [''empty''] sampleWorld)) = 0
   \<and> filter codecCall (trace (snd (processInput sampleRuntime sampleConverter [''empty''] sampleWorld))) = []"
proof -
  define td where "td = tempDirOf sampleRuntime"
  define w1 where "w1 = (emit (EnsureDir td) sampleWorld)\<lparr>fs := withDir (snd (fs_ensureDir sampleRuntime sampleWorld td)) td\<rparr>"
  have tdv: "td = ''/work/.temp-downloads''"
    unfolding td_def by code_simp
  have m: "fst (fs_ensureDir sampleRuntime sampleWorld td) = Inr ()"
    unfolding td_def by code_simp
  have x0: "fst (expandInputs sampleRuntime sampleConverter td [] [] w1) = Inr []"
    by simp
  have x1: "fst (expandInputs sampleRuntime sampleConverter td [''empty''] [] w1) = Inr []"
    unfolding w1_def td_def by code_simp
  have p0: "pathExists td (snd (expandInputs sampleRuntime sampleConverter td [] [] w1))"
    unfolding w1_def td_def by code_simp
  have p1: "pathExists td (snd (expandInputs sampleRuntime sampleConverter td [''empty''] [] w1))"
    unfolding w1_def td_def by code_simp
  have r: "\<And>v. fst (fs_remove sampleRuntime v td) = Inr ()"
    by (simp add: sampleRuntime_def)
  have t: "ticks sampleWorld = 0" "trace sampleWorld = []"
    by (simp_all add: sampleWorld_def)
  note th0 = empty_candidate_list [of sampleRuntime sampleWorld sampleConverter "[]",
      unfolded Let_def td_def [symmetric] w1_def [symmetric]]
  note th1 = empty_candidate_list [of sampleRuntime sampleWorld sampleConverter "[''empty'']",
      unfolded Let_def td_def [symmetric] w1_def [symmetric]]
  have a0: "fst (processInput sampleRuntime sampleConverter [] sampleWorld) =
      (if pathExists td (snd (expandInputs sampleRuntime sampleConverter td [] [] w1))
       then (case fst (fs_remove sampleRuntime
                         (emit (PathExists td) (snd (expandInputs sampleRuntime sampleConverter td [] [] w1))) td) of
               Inl e \<Rightarrow> Inl e
             | Inr u \<Rightarrow> Inr \<lparr>total = 0, successful = 0, failed = 0, totalTime = 0\<rparr>)
       else Inr \<lparr>total = 0, successful = 0, failed = 0, totalTime = 0\<rparr>)
     \<and> trace (snd (processInput sampleRuntime sampleConverter [] sampleWorld)) =
         trace sampleWorld @ [EnsureDir td, PathExists td, Remove td]"
    using th0 m x0 by blast
  have a1: "fst (processInput sampleRuntime sampleConverter [''empty''] sampleWorld) =
      (if pathExists td (snd (expandInputs sampleRuntime sampleConverter td [''empty''] [] w1))
       then (case fst (fs_remove sampleRuntime
                         (emit (PathExists td) (snd (expandInputs sampleRuntime sampleConverter td [''empty''] [] w1))) td) of
               Inl e \<Rightarrow> Inl e
             | Inr u \<Rightarrow> Inr \<lparr>total = 0, successful = 0, failed = 0, totalTime = 0\<rparr>)
       else Inr \<lparr>total = 0, successful = 0, failed = 0, totalTime = 0\<rparr>)
     \<and> ticks (snd (processInput sampleRuntime sampleConverter [''empty''] sampleWorld)) = ticks sampleWorld
     \<and> filter codecCall (trace (snd (processInput sampleRuntime sampleConverter [''empty''] sampleWorld)))
         = filter codecCall (trace sampleWorld)"
    using th1 m x1 by blast
  show ?thesis
    using m a0 a1 p0 p1 r t
    unfolding td_def [symmetric]
    by (simp add: tdv)
qed





end
